theory Spec2Isabelle
  imports Complex_Main "HOL-Library.Multiset"
begin

section \<open>Python values and exceptions\<close>

text \<open>
  The module \<open>we_panic_utils/nn/processing.py\<close> is dynamically typed. The constructor
  of \<open>FrameProcessor\<close> inspects the run-time type of its arguments with
  \<open>type(x) == int\<close>, \<open>type(x) == float\<close> and \<open>type(x) == bool\<close>, so the
  arguments it checks are modelled as tagged Python values. \<open>type(True) == int\<close> is
  \<open>False\<close> in Python, so \<open>PyBool\<close> and \<open>PyInt\<close> are different tags. Floats are
  modelled as reals. Rounding is modelled where a rounded value decides a branch (the
  test of \<open>random_sequence_zoom\<close>, through \<open>float64\<close> below) and nowhere else; NaN
  and the infinities are outside the model.
\<close>

datatype pyval = PyInt int | PyFloat real | PyBool bool | PyStr string | PyNone

text \<open>
  Every exception the modelled code can raise. \<open>AssertionError\<close> carries the static
  part of the assertion's message (the \<open>%f\<close>-formatted number is left out).
  \<open>IOError\<close> stands for \<open>OSError\<close> and its subclasses (\<open>FileNotFoundError\<close>, ...).
\<close>

datatype error =
    AssertionError string
  | IndexError
  | ValueError
  | UnboundLocalError
  | KeyError
  | IOError
  | AxisError

section \<open>The augmentation configuration: \<open>FrameProcessor.__init__\<close>\<close>

text \<open>
  The object the constructor builds. The fields the constructor checks have the type
  its assertions establish; \<open>shear_range\<close> and \<open>batch_size\<close> are stored unchecked and
  are given the types of the class's docstring (a float and an int).
\<close>

record FrameProcessor =
  rotation_range :: int
  width_shift_range :: real
  height_shift_range :: real
  shear_range :: real
  zoom_range :: real
  horizontal_flip :: bool
  vertical_flip :: bool
  batch_size :: int

text \<open>
  The eight assertions of \<open>__init__\<close>, in the order of the source (the interpreter
  running without \<open>-O\<close>, which would skip them). The message of the height range
  assertion says \<open>width_shift_range\<close>, as the source does.
\<close>

fun FrameProcessor_init ::
  "pyval \<Rightarrow> pyval \<Rightarrow> pyval \<Rightarrow> real \<Rightarrow> pyval \<Rightarrow> pyval \<Rightarrow> pyval \<Rightarrow> int
     \<Rightarrow> error + FrameProcessor" where
  "FrameProcessor_init rot wsr hsr shear zoom hflip vflip bs =
    (case rot of
       PyInt r \<Rightarrow>
        (case wsr of
           PyFloat w \<Rightarrow>
            if \<not> (w \<le> 1 \<and> w \<ge> 0)
            then Inl (AssertionError ''width_shift_range should be in [0, 1]'')
            else
            (case hsr of
               PyFloat h \<Rightarrow>
                if \<not> (h \<le> 1 \<and> h \<ge> 0)
                then Inl (AssertionError ''width_shift_range should be in [0, 1]'')
                else
                (case zoom of
                   PyFloat z \<Rightarrow>
                    (case hflip of
                       PyBool hf \<Rightarrow>
                        (case vflip of
                           PyBool vf \<Rightarrow>
                             Inr \<lparr> rotation_range = r, width_shift_range = w,
                                    height_shift_range = h, shear_range = shear,
                                    zoom_range = z, horizontal_flip = hf,
                                    vertical_flip = vf, batch_size = bs \<rparr>
                         | _ \<Rightarrow> Inl (AssertionError ''vertical_flip should be a boolean''))
                     | _ \<Rightarrow> Inl (AssertionError ''horizontal_flip should be a boolean''))
                 | _ \<Rightarrow> Inl (AssertionError ''zoom_range should be a float''))
             | _ \<Rightarrow> Inl (AssertionError ''height_shift_range should be a float''))
         | _ \<Rightarrow> Inl (AssertionError ''width_shift_range should be a float''))
     | _ \<Rightarrow> Inl (AssertionError ''rotation_range should be integer valued''))"

text \<open>What the assertions accept: the types, and the two shift ranges within [0, 1].\<close>

fun accepted_by_init :: "pyval \<Rightarrow> pyval \<Rightarrow> pyval \<Rightarrow> pyval \<Rightarrow> pyval \<Rightarrow> pyval \<Rightarrow> bool" where
  "accepted_by_init (PyInt r) (PyFloat w) (PyFloat h) (PyFloat z) (PyBool hf) (PyBool vf) =
     (0 \<le> w \<and> w \<le> 1 \<and> 0 \<le> h \<and> h \<le> 1)"
| "accepted_by_init _ _ _ _ _ _ = False"

section \<open>Sequencing of computations that may raise\<close>

text \<open>
  A computation that may raise returns \<open>Inl\<close> the exception or \<open>Inr\<close> its value.
  \<open>and_then\<close> runs the next statement only when the previous one did not raise;
  \<open>mapM\<close> is a list comprehension whose body may raise: the first exception ends it.
\<close>

definition and_then :: "error + 'a \<Rightarrow> ('a \<Rightarrow> error + 'b) \<Rightarrow> error + 'b" where
  "and_then m f = (case m of Inl e \<Rightarrow> Inl e | Inr x \<Rightarrow> f x)"

fun mapM :: "('a \<Rightarrow> error + 'b) \<Rightarrow> 'a list \<Rightarrow> error + 'b list" where
  "mapM f [] = Inr []"
| "mapM f (x # xs) =
     (case f x of
        Inl e \<Rightarrow> Inl e
      | Inr y \<Rightarrow> (case mapM f xs of Inl e \<Rightarrow> Inl e | Inr ys \<Rightarrow> Inr (y # ys)))"

section \<open>Frames: three-dimensional arrays\<close>

text \<open>
  A frame is a 3D tensor (the docstrings: "list of 3D input tensors"): its shape and its
  elements in row-major order, as numpy stores them. \<open>x.shape[axis]\<close> raises
  \<open>IndexError\<close> for an axis past the last one. Axes are natural numbers: Python's
  negative axes are not modelled.
\<close>

record frame =
  shape :: "nat \<times> nat \<times> nat"
  data :: "real list"

fun shape_at :: "nat \<times> nat \<times> nat \<Rightarrow> nat \<Rightarrow> error + nat" where
  "shape_at (d0, d1, d2) axis =
     (if axis = 0 then Inr d0 else if axis = 1 then Inr d1
      else if axis = 2 then Inr d2 else Inl IndexError)"

fun getitem :: "frame \<Rightarrow> nat \<times> nat \<times> nat \<Rightarrow> real" where
  "getitem x (i, j, k) = (case shape x of (d0, d1, d2) \<Rightarrow> data x ! ((i * d1 + j) * d2 + k))"

text \<open>The array of a given shape whose element at index \<open>(i, j, k)\<close> is \<open>g (i, j, k)\<close>.\<close>

fun ndarray :: "nat \<times> nat \<times> nat \<Rightarrow> (nat \<times> nat \<times> nat \<Rightarrow> real) \<Rightarrow> frame" where
  "ndarray (d0, d1, d2) g =
     \<lparr> shape = (d0, d1, d2),
       data = concat (map (\<lambda>i. concat (map (\<lambda>j. map (\<lambda>k. g (i, j, k)) [0..<d2]) [0..<d1]))
                       [0..<d0]) \<rparr>"

text \<open>
  \<open>x.swapaxes(a, b)\<close>: the view whose axes \<open>a\<close> and \<open>b\<close> are exchanged; numpy raises
  \<open>AxisError\<close> for an axis a 3D array does not have.
\<close>

fun exchange :: "nat \<Rightarrow> nat \<Rightarrow> 'a \<times> 'a \<times> 'a \<Rightarrow> 'a \<times> 'a \<times> 'a" where
  "exchange a b (x0, x1, x2) =
     (let elem = (\<lambda>n. if n = 0 then x0 else if n = 1 then x1 else x2);
          perm = (\<lambda>n. if n = a then b else if n = b then a else n)
      in (elem (perm 0), elem (perm 1), elem (perm 2)))"

definition swapaxes :: "frame \<Rightarrow> nat \<Rightarrow> nat \<Rightarrow> error + frame" where
  "swapaxes x a b =
     (if 2 < a \<or> 2 < b then Inl AxisError
      else Inr (ndarray (exchange a b (shape x)) (\<lambda>idx. getitem x (exchange a b idx))))"

text \<open>\<open>x[::-1, ...]\<close>: the first axis reversed.\<close>

definition reverse_first_axis :: "frame \<Rightarrow> frame" where
  "reverse_first_axis x =
     ndarray (shape x) (\<lambda>(i, j, k). getitem x (fst (shape x) - 1 - i, j, k))"

text \<open>\<open>sequence_flip_axis\<close>: its three list comprehensions, one after the other.\<close>

definition sequence_flip_axis :: "frame list \<Rightarrow> nat \<Rightarrow> error + frame list" where
  "sequence_flip_axis seq axis =
     and_then (mapM (\<lambda>x. swapaxes x axis 0) seq) (\<lambda>seq1.
     let seq2 = map reverse_first_axis seq1
     in mapM (\<lambda>x. swapaxes x 0 axis) seq2)"

text \<open>
  The flip in the spec's words, to compare \<open>sequence_flip_axis\<close> with: "reverse frame
  order along a specified spatial axis", that is, the element at an index is the one at
  the index mirrored along the axis. A frame is well formed when it holds as many
  elements as its shape says.
\<close>

definition well_formed :: "frame \<Rightarrow> bool" where
  "well_formed x = (case shape x of (d0, d1, d2) \<Rightarrow> length (data x) = d0 * d1 * d2)"

fun reverse_at :: "nat \<Rightarrow> nat \<times> nat \<times> nat \<Rightarrow> nat \<times> nat \<times> nat \<Rightarrow> nat \<times> nat \<times> nat" where
  "reverse_at axis (d0, d1, d2) (i, j, k) =
     (if axis = 0 then (d0 - 1 - i, j, k)
      else if axis = 1 then (i, d1 - 1 - j, k)
      else (i, j, d2 - 1 - k))"

definition flip_frame :: "nat \<Rightarrow> frame \<Rightarrow> frame" where
  "flip_frame axis x = ndarray (shape x) (\<lambda>idx. getitem x (reverse_at axis (shape x) idx))"

section \<open>Affine transform matrices\<close>

type_synonym matrix = "(real \<times> real \<times> real) \<times> (real \<times> real \<times> real) \<times> (real \<times> real \<times> real)"

fun dot :: "matrix \<Rightarrow> matrix \<Rightarrow> matrix" where
  "dot ((a11, a12, a13), (a21, a22, a23), (a31, a32, a33))
       ((b11, b12, b13), (b21, b22, b23), (b31, b32, b33)) =
     ((a11 * b11 + a12 * b21 + a13 * b31, a11 * b12 + a12 * b22 + a13 * b32,
       a11 * b13 + a12 * b23 + a13 * b33),
      (a21 * b11 + a22 * b21 + a23 * b31, a21 * b12 + a22 * b22 + a23 * b32,
       a21 * b13 + a22 * b23 + a23 * b33),
      (a31 * b11 + a32 * b21 + a33 * b31, a31 * b12 + a32 * b22 + a33 * b32,
       a31 * b13 + a32 * b23 + a33 * b33))"

definition identity_matrix :: matrix where
  "identity_matrix = ((1, 0, 0), (0, 1, 0), (0, 0, 1))"

text \<open>
  Modelled from the spec: \<open>transform_matrix_offset_center\<close> is imported from
  \<open>keras.preprocessing.image\<close> and is not under src/. The spec: "compose with a
  center-offset so rotation pivots on the frame center (translate to origin, rotate,
  translate back)". The centre is \<open>(h / 2 + 0.5, w / 2 + 0.5)\<close>, as in keras.
\<close>

definition transform_matrix_offset_center :: "matrix \<Rightarrow> nat \<Rightarrow> nat \<Rightarrow> matrix" where
  "transform_matrix_offset_center m x y =
     (let o_x = real x / 2 + 0.5;
          o_y = real y / 2 + 0.5;
          offset_matrix = ((1, 0, o_x), (0, 1, o_y), (0, 0, 1));
          reset_matrix = ((1, 0, - o_x), (0, 1, - o_y), (0, 0, 1))
      in dot (dot offset_matrix m) reset_matrix)"

definition deg2rad :: "real \<Rightarrow> real" where
  "deg2rad d = d * (pi / 180)"

section \<open>The random sources\<close>

text \<open>
  The code draws from two process-wide generators: numpy's (\<open>np.random.uniform\<close>,
  \<open>np.random.random_sample\<close>) and Python's (\<open>random.sample\<close>). Each is an infinite
  stream of raw draws and a position in it; a draw reads the stream at the position and
  advances it, so the number of draws a call makes is the distance it moves the position.
  A raw numpy draw is the value of \<open>random_sample()\<close>, a float of [0, 1).
\<close>

record rng =
  np_draws :: "nat \<Rightarrow> real"
  np_pos :: nat
  py_draws :: "nat \<Rightarrow> nat"
  py_pos :: nat

definition np_random_sample :: "rng \<Rightarrow> real \<times> rng" where
  "np_random_sample g = (np_draws g (np_pos g), g\<lparr>np_pos := np_pos g + 1\<rparr>)"

text \<open>\<open>np.random.uniform(low, high)\<close> is \<open>low + (high - low) * random_sample()\<close>.\<close>

definition np_random_uniform :: "real \<Rightarrow> real \<Rightarrow> rng \<Rightarrow> real \<times> rng" where
  "np_random_uniform low high g =
     (let (u, g1) = np_random_sample g in (low + (high - low) * u, g1))"

text \<open>\<open>np.random.uniform(low, high, 2)\<close>: one call that draws two values.\<close>

definition np_random_uniform2 :: "real \<Rightarrow> real \<Rightarrow> rng \<Rightarrow> (real \<times> real) \<times> rng" where
  "np_random_uniform2 low high g =
     (let (a, g1) = np_random_uniform low high g;
          (b, g2) = np_random_uniform low high g1
      in ((a, b), g2))"

definition randbelow :: "nat \<Rightarrow> rng \<Rightarrow> nat \<times> rng" where
  "randbelow n g = (py_draws g (py_pos g) mod n, g\<lparr>py_pos := py_pos g + 1\<rparr>)"

text \<open>
  \<open>random.sample(population, k)\<close> of Python's standard library: \<open>ValueError\<close> when
  \<open>k\<close> is negative or larger than the population; otherwise \<open>k\<close> rounds, each picking
  a position of the pool of elements not yet picked and moving the pool's last element
  into the hole. The list \<open>pool\<close> here is the live part of the library's pool. (For a
  large population the library tracks the picked positions in a set instead; it picks
  from positions not yet picked as well.)
\<close>

fun sample_loop :: "'a list \<Rightarrow> nat \<Rightarrow> rng \<Rightarrow> 'a list \<times> rng" where
  "sample_loop pool 0 g = ([], g)"
| "sample_loop pool (Suc k) g =
     (let (j, g1) = randbelow (length pool) g;
          picked = pool ! j;
          pool1 = butlast (pool[j := last pool]);
          (result, g2) = sample_loop pool1 k g1
      in (picked # result, g2))"

definition random_sample :: "'a list \<Rightarrow> int \<Rightarrow> rng \<Rightarrow> error + ('a list \<times> rng)" where
  "random_sample population k g =
     (if \<not> (0 \<le> k \<and> k \<le> int (length population)) then Inl ValueError
      else Inr (sample_loop population (nat k) g))"

section \<open>The environment: the file system and keras\<close>

text \<open>
  What the module calls and does not define. \<open>listdir\<close> is \<open>os.listdir\<close>: the entries
  of a directory, or \<open>None\<close> where it raises \<open>OSError\<close>. \<open>load_img\<close> is keras's
  \<open>load_img(path, target_size)\<close>: the decoded, resized image, or \<open>None\<close> where the file
  is missing or not an image (\<open>IOError\<close>). \<open>img_to_array\<close> turns an image into its
  array. \<open>apply_transform\<close> is keras's
  \<open>apply_transform(x, transform_matrix, channel_axis, fill_mode, cval)\<close>.
\<close>

record 'img env =
  listdir :: "string \<Rightarrow> string list option"
  load_img :: "string \<Rightarrow> nat \<times> nat \<Rightarrow> 'img option"
  img_to_array :: "'img \<Rightarrow> frame"
  apply_transform :: "frame \<Rightarrow> matrix \<Rightarrow> nat \<Rightarrow> string \<Rightarrow> real \<Rightarrow> frame"

section \<open>Rounding to a float\<close>

text \<open>
  Python's floats are IEEE 754 binary64 numbers, and an arithmetic operation returns the
  float nearest to the exact result, a tie going to the one with an even significand.
  \<open>float64 x\<close> is that float for a real \<open>x\<close>: with \<open>e\<close> the binary exponent of \<open>x\<close>
  (at least -1022, where the subnormal numbers start), the floats around \<open>x\<close> are the
  multiples of \<open>2 ^ (e - 52)\<close>. Overflow to infinity (from \<open>2 ^ 1024\<close> on) is not
  modelled. So \<open>1 - z\<close> and \<open>1 + z\<close> both round to 1 for a positive \<open>z\<close> that is small
  enough, about \<open>2 ^ -54\<close> and below.
\<close>

definition round_half_even :: "real \<Rightarrow> int" where
  "round_half_even y =
     (let f = \<lfloor>y\<rfloor>
      in if y - of_int f < 1 / 2 then f
         else if 1 / 2 < y - of_int f then f + 1
         else if even f then f else f + 1)"

fun exponent_up :: "nat \<Rightarrow> real \<Rightarrow> int \<Rightarrow> int" where
  "exponent_up 0 a e = e"
| "exponent_up (Suc n) a e = (if a < 2 then e else exponent_up n (a / 2) (e + 1))"

fun exponent_down :: "nat \<Rightarrow> real \<Rightarrow> int \<Rightarrow> int" where
  "exponent_down 0 a e = e"
| "exponent_down (Suc n) a e = (if 1 \<le> a then e else exponent_down n (a * 2) (e - 1))"

definition binary_exponent :: "real \<Rightarrow> int" where
  "binary_exponent x =
     (if 1 \<le> \<bar>x\<bar> then exponent_up 1023 \<bar>x\<bar> 0 else exponent_down 1022 \<bar>x\<bar> 0)"

definition float64 :: "real \<Rightarrow> real" where
  "float64 x =
     (if x = 0 then 0
      else let e = binary_exponent x;
               ulp = (if 52 \<le> e then 2 ^ nat (e - 52) else 1 / 2 ^ nat (52 - e))
           in of_int (round_half_even (x / ulp)) * ulp)"

section \<open>The geometric transforms of a sequence\<close>

text \<open>
  Each function follows the source's statement order: rotation, shear and zoom draw
  before they read \<open>seq[0]\<close>, shift reads \<open>seq[0]\<close> first. \<open>seq[0]\<close> raises
  \<open>IndexError\<close> on the empty list; \<open>first_shape\<close> is the statement
  \<open>h, w = seq[0].shape[row_axis], seq[0].shape[col_axis]\<close>. The range parameters are
  written \<open>..._rg\<close> (the source's \<open>..._range\<close> are the fields of the configuration
  here). In \<open>random_sequence_zoom\<close> the floats \<open>zlower\<close> and \<open>zupper\<close> are compared
  with 1, so they are the rounded difference and sum.
\<close>

definition first_shape :: "frame list \<Rightarrow> nat \<Rightarrow> nat \<Rightarrow> error + (nat \<times> nat)" where
  "first_shape seq row_axis col_axis =
     (case seq of
        [] \<Rightarrow> Inl IndexError
      | x0 # _ \<Rightarrow>
          and_then (shape_at (shape x0) row_axis) (\<lambda>h.
          and_then (shape_at (shape x0) col_axis) (\<lambda>w. Inr (h, w))))"

definition random_sequence_rotation ::
  "'img env \<Rightarrow> frame list \<Rightarrow> real \<Rightarrow> nat \<Rightarrow> nat \<Rightarrow> nat \<Rightarrow> string \<Rightarrow> real \<Rightarrow> rng
     \<Rightarrow> error + (frame list \<times> rng)" where
  "random_sequence_rotation env seq rotation_rg row_axis col_axis channel_axis
       fill_mode cval g =
     (let (d, g1) = np_random_uniform (- rotation_rg) rotation_rg g;
          theta = deg2rad d;
          rotation_matrix = ((cos theta, - sin theta, 0), (sin theta, cos theta, 0), (0, 0, 1))
      in and_then (first_shape seq row_axis col_axis) (\<lambda>(h, w).
         let transform_matrix = transform_matrix_offset_center rotation_matrix h w
         in Inr (map (\<lambda>x. apply_transform env x transform_matrix channel_axis fill_mode cval)
                   seq, g1)))"

definition random_sequence_shift ::
  "'img env \<Rightarrow> frame list \<Rightarrow> real \<Rightarrow> real \<Rightarrow> nat \<Rightarrow> nat \<Rightarrow> nat \<Rightarrow> string \<Rightarrow> real \<Rightarrow> rng
     \<Rightarrow> error + (frame list \<times> rng)" where
  "random_sequence_shift env seq height_shift_rg width_shift_rg row_axis col_axis
       channel_axis fill_mode cval g =
     and_then (first_shape seq row_axis col_axis) (\<lambda>(h, w).
       let (a, g1) = np_random_uniform (- height_shift_rg) height_shift_rg g;
           tx = a * real h;
           (b, g2) = np_random_uniform (- width_shift_rg) width_shift_rg g1;
           ty = b * real w;
           translation_matrix = ((1, 0, tx), (0, 1, ty), (0, 0, 1));
           transform_matrix = translation_matrix
       in Inr (map (\<lambda>x. apply_transform env x transform_matrix channel_axis fill_mode cval)
                 seq, g2))"

definition random_sequence_shear ::
  "'img env \<Rightarrow> frame list \<Rightarrow> real \<Rightarrow> nat \<Rightarrow> nat \<Rightarrow> nat \<Rightarrow> string \<Rightarrow> real \<Rightarrow> rng
     \<Rightarrow> error + (frame list \<times> rng)" where
  "random_sequence_shear env seq shear_rg row_axis col_axis channel_axis fill_mode cval g =
     (let (d, g1) = np_random_uniform (- shear_rg) shear_rg g;
          shear = deg2rad d;
          shear_matrix = ((1, - sin shear, 0), (0, cos shear, 0), (0, 0, 1))
      in and_then (first_shape seq row_axis col_axis) (\<lambda>(h, w).
         let transform_matrix = transform_matrix_offset_center shear_matrix h w
         in Inr (map (\<lambda>x. apply_transform env x transform_matrix channel_axis fill_mode cval)
                   seq, g1)))"

definition random_sequence_zoom ::
  "'img env \<Rightarrow> frame list \<Rightarrow> real \<Rightarrow> nat \<Rightarrow> nat \<Rightarrow> nat \<Rightarrow> string \<Rightarrow> real \<Rightarrow> rng
     \<Rightarrow> error + (frame list \<times> rng)" where
  "random_sequence_zoom env seq zoom_rg row_axis col_axis channel_axis fill_mode cval g =
     (let zlower = float64 (1 - zoom_rg);
          zupper = float64 (1 + zoom_rg);
          ((zx, zy), g1) =
            (if zlower = 1 \<and> zupper = 1 then ((1, 1), g)
             else np_random_uniform2 zlower zupper g);
          zoom_matrix = ((zx, 0, 0), (0, zy, 0), (0, 0, 1))
      in and_then (first_shape seq row_axis col_axis) (\<lambda>(h, w).
         let transform_matrix = transform_matrix_offset_center zoom_matrix h w
         in Inr (map (\<lambda>x. apply_transform env x transform_matrix channel_axis fill_mode cval)
                   seq, g1)))"

section \<open>Assembling the sequence of a sample\<close>

text \<open>\<open>"%d" % i\<close> for a non-negative \<open>i\<close>: its decimal digits.\<close>

function string_of_nat :: "nat \<Rightarrow> string" where
  "string_of_nat n =
     (if n < 10 then [char_of (48 + n)]
      else string_of_nat (n div 10) @ [char_of (48 + n mod 10)])"
  by pat_completeness auto
termination
  by (relation "measure id") auto

text \<open>\<open>os.path.join(a, b)\<close> on a POSIX system.\<close>

definition os_path_join :: "string \<Rightarrow> string \<Rightarrow> string" where
  "os_path_join a b =
     (if b \<noteq> [] \<and> hd b = CHR ''/'' then b
      else if a = [] \<or> last a = CHR ''/'' then a @ b
      else a @ ''/'' @ b)"

definition frame_name :: "nat \<Rightarrow> string" where
  "frame_name i = ''frame'' @ string_of_nat i @ ''.png''"

definition get_sample_frames :: "'img env \<Rightarrow> string \<Rightarrow> error + string list" where
  "get_sample_frames env sample =
     (case listdir env sample of
        None \<Rightarrow> Inl IOError
      | Some contents \<Rightarrow>
          let max_frame = length contents;
              filenames = map (\<lambda>i. os_path_join sample (frame_name i)) [0..<max_frame]
          in Inr filenames)"

text \<open>
  \<open>process_img\<close>: load, convert, divide every element by 255. (\<open>astype(np.float32)\<close>
  rounds; the model keeps the real quotient.)
\<close>

definition process_img :: "'img env \<Rightarrow> string \<Rightarrow> nat \<times> nat \<times> nat \<Rightarrow> error + frame" where
  "process_img env frame input_shape =
     (case input_shape of (h_, w_, _) \<Rightarrow>
        (case load_img env frame (h_, w_) of
           None \<Rightarrow> Inl IOError
         | Some img \<Rightarrow>
             let img_arr = img_to_array env img;
                 x = img_arr\<lparr>data := map (\<lambda>v. v / 255) (data img_arr)\<rparr>
             in Inr x))"

definition build_image_sequence ::
  "'img env \<Rightarrow> string list \<Rightarrow> nat \<times> nat \<times> nat \<Rightarrow> error + frame list" where
  "build_image_sequence env frames input_shape =
     mapM (\<lambda>frame. process_img env frame input_shape) frames"

text \<open>
  Both generators assemble a sample with the same two statements,
  \<open>frames = get_sample_frames(pth)\<close> and \<open>sequence = build_image_sequence(frames)\<close>,
  the second with the default \<open>input_shape = (224, 224, 3)\<close>.
\<close>

definition assemble :: "'img env \<Rightarrow> string \<Rightarrow> error + frame list" where
  "assemble env pth =
     and_then (get_sample_frames env pth) (\<lambda>frames.
       build_image_sequence env frames (224, 224, 3))"

section \<open>The generators\<close>

text \<open>
  \<open>paths2labels\<close> is a dictionary: its items in iteration order. \<open>paths2labels[pth]\<close>
  raises \<open>KeyError\<close> for a key it does not have. A generator object is \<open>Created\<close>
  until its first pull, which runs the statements before the loop; afterwards it is
  suspended at its \<open>yield\<close> with the local variables that live across pulls. A pull
  that raises gives the exception and no generator to pull again. The \<open>print\<close>
  calls and \<open>np.array\<close> (which packs the lists it is given) are not modelled, and
  \<open>threadsafe_iterator.__next__\<close>, which takes the lock and calls \<open>next\<close>, is the
  pull itself for one caller.
\<close>

definition getitem_dict :: "(string \<times> 'l) list \<Rightarrow> string \<Rightarrow> error + 'l" where
  "getitem_dict paths2labels pth =
     (case map_of paths2labels pth of None \<Rightarrow> Inl KeyError | Some l \<Rightarrow> Inr l)"

datatype 'a generator = Created | Suspended 'a

subsection \<open>\<open>testing_generator\<close>\<close>

text \<open>The locals across pulls: \<open>sequence_paths\<close> and \<open>current\<close>.\<close>

definition testing_generator_next ::
  "'img env \<Rightarrow> (string \<times> 'l) list \<Rightarrow> (string list \<times> nat) generator
     \<Rightarrow> error + ((frame list list \<times> 'l) \<times> (string list \<times> nat) generator)" where
  "testing_generator_next env paths2labels gen =
     (let (sequence_paths, current) =
            (case gen of Created \<Rightarrow> (map fst paths2labels, 0) | Suspended l \<Rightarrow> l)
      in if length sequence_paths \<le> current then Inl IndexError
         else
           let selected_path = sequence_paths ! current
           in and_then (getitem_dict paths2labels selected_path) (\<lambda>y.
              and_then (assemble env selected_path) (\<lambda>sequence.
                let X = [] @ [sequence];
                    current1 = current + 1;
                    current2 = (if current1 = length sequence_paths then 0 else current1)
                in Inr ((X, y), Suspended (sequence_paths, current2)))))"

text \<open>The batches of \<open>n\<close> consecutive pulls, and the generator after them.\<close>

fun testing_generator_pulls ::
  "'img env \<Rightarrow> (string \<times> 'l) list \<Rightarrow> nat \<Rightarrow> (string list \<times> nat) generator
     \<Rightarrow> error + ((frame list list \<times> 'l) list \<times> (string list \<times> nat) generator)" where
  "testing_generator_pulls env paths2labels 0 gen = Inr ([], gen)"
| "testing_generator_pulls env paths2labels (Suc n) gen =
     and_then (testing_generator_next env paths2labels gen) (\<lambda>(b, gen1).
     and_then (testing_generator_pulls env paths2labels n gen1) (\<lambda>(bs, gen2).
       Inr (b # bs, gen2)))"

subsection \<open>\<open>frame_generator\<close>: the augmentation of one sample\<close>

text \<open>
  The six \<open>if\<close> statements of the loop body, in the source's order. The calls pass the
  sequence and the ranges only, so every other parameter has its default: \<open>row_axis=0\<close>,
  \<open>col_axis=1\<close>, \<open>fill_mode='nearest'\<close>, \<open>cval=0\<close>, and \<open>channel_axis=2\<close> for rotation,
  shift and shear but \<open>channel_axis=1\<close> for zoom. The shift call passes
  \<open>self.width_shift_range\<close> first and \<open>self.height_shift_range\<close> second.
\<close>

definition rotation_step ::
  "'img env \<Rightarrow> FrameProcessor \<Rightarrow> frame list \<Rightarrow> rng \<Rightarrow> error + (frame list \<times> rng)" where
  "rotation_step env self sequence g =
     (if real_of_int (rotation_range self) > 0.0
      then random_sequence_rotation env sequence (real_of_int (rotation_range self))
             0 1 2 ''nearest'' 0 g
      else Inr (sequence, g))"

definition shift_step ::
  "'img env \<Rightarrow> FrameProcessor \<Rightarrow> frame list \<Rightarrow> rng \<Rightarrow> error + (frame list \<times> rng)" where
  "shift_step env self sequence g =
     (if width_shift_range self > 0.0 \<or> height_shift_range self > 0.0
      then random_sequence_shift env sequence (width_shift_range self)
             (height_shift_range self) 0 1 2 ''nearest'' 0 g
      else Inr (sequence, g))"

definition shear_step ::
  "'img env \<Rightarrow> FrameProcessor \<Rightarrow> frame list \<Rightarrow> rng \<Rightarrow> error + (frame list \<times> rng)" where
  "shear_step env self sequence g =
     (if shear_range self > 0.0
      then random_sequence_shear env sequence (shear_range self) 0 1 2 ''nearest'' 0 g
      else Inr (sequence, g))"

definition zoom_step ::
  "'img env \<Rightarrow> FrameProcessor \<Rightarrow> frame list \<Rightarrow> rng \<Rightarrow> error + (frame list \<times> rng)" where
  "zoom_step env self sequence g =
     (if zoom_range self > 0.0
      then random_sequence_zoom env sequence (zoom_range self) 0 1 1 ''nearest'' 0 g
      else Inr (sequence, g))"

text \<open>
  \<open>coin_flip\<close> is a local variable of the generator: \<open>None\<close> while it is unbound.
  The vertical step assigns it. The horizontal step's statement
  \<open>coin_flip - np.random.random_sample() > 0.5\<close> is an expression: it reads
  \<open>coin_flip\<close> (\<open>UnboundLocalError\<close> when unbound, before the draw), draws, and
  discards the comparison; the \<open>if coin_flip\<close> that follows reads the variable as it was.
\<close>

definition vertical_flip_step ::
  "FrameProcessor \<Rightarrow> frame list \<Rightarrow> bool option \<Rightarrow> rng
     \<Rightarrow> error + (frame list \<times> bool option \<times> rng)" where
  "vertical_flip_step self sequence coin_flip g =
     (if vertical_flip self
      then (let (u, g1) = np_random_sample g;
                coin = (u > 0.5)
            in if coin
               then and_then (sequence_flip_axis sequence 1) (\<lambda>flipped.
                      Inr (flipped, Some coin, g1))
               else Inr (sequence, Some coin, g1))
      else Inr (sequence, coin_flip, g))"

definition horizontal_flip_step ::
  "FrameProcessor \<Rightarrow> frame list \<Rightarrow> bool option \<Rightarrow> rng
     \<Rightarrow> error + (frame list \<times> bool option \<times> rng)" where
  "horizontal_flip_step self sequence coin_flip g =
     (if horizontal_flip self
      then (case coin_flip of
              None \<Rightarrow> Inl UnboundLocalError
            | Some coin \<Rightarrow>
                let (u, g1) = np_random_sample g;
                    discarded = ((if coin then 1 else 0) - u > 0.5)
                in if coin
                   then and_then (sequence_flip_axis sequence 2) (\<lambda>flipped.
                          Inr (flipped, Some coin, g1))
                   else Inr (sequence, Some coin, g1))
      else Inr (sequence, coin_flip, g))"

text \<open>The loop body for one selected path: the assembly, then the six steps.\<close>

definition augment ::
  "'img env \<Rightarrow> FrameProcessor \<Rightarrow> frame list \<Rightarrow> bool option \<Rightarrow> rng
     \<Rightarrow> error + (frame list \<times> bool option \<times> rng)" where
  "augment env self sequence coin_flip g =
     and_then (rotation_step env self sequence g) (\<lambda>(sequence, g).
     and_then (shift_step env self sequence g) (\<lambda>(sequence, g).
     and_then (shear_step env self sequence g) (\<lambda>(sequence, g).
     and_then (zoom_step env self sequence g) (\<lambda>(sequence, g).
     and_then (vertical_flip_step self sequence coin_flip g) (\<lambda>(sequence, coin_flip, g).
       horizontal_flip_step self sequence coin_flip g)))))"

definition augmented_sample ::
  "'img env \<Rightarrow> FrameProcessor \<Rightarrow> string \<Rightarrow> bool option \<Rightarrow> rng
     \<Rightarrow> error + (frame list \<times> bool option \<times> rng)" where
  "augmented_sample env self pth coin_flip g =
     and_then (assemble env pth) (\<lambda>sequence. augment env self sequence coin_flip g)"

text \<open>
  The geometric steps as C10 reads them, to compare the loop body with: each enabled
  step transforms every frame with one matrix, with \<open>channel_axis = 2\<close> for rotation,
  shift and shear and \<open>channel_axis = 1\<close> for zoom. A sequence \<open>x\<close> of the batch is
  augmented as claimed from a path when it is the result of the two flip steps on the
  path's assembled sequence so transformed, for some matrices.
\<close>

definition geometric_pipeline ::
  "'img env \<Rightarrow> FrameProcessor \<Rightarrow> matrix \<Rightarrow> matrix \<Rightarrow> matrix \<Rightarrow> matrix \<Rightarrow> frame list
     \<Rightarrow> frame list" where
  "geometric_pipeline env self M1 M2 M3 M4 sequence =
     (let s1 = (if real_of_int (rotation_range self) > 0
                then map (\<lambda>x. apply_transform env x M1 2 ''nearest'' 0) sequence
                else sequence);
          s2 = (if width_shift_range self > 0 \<or> height_shift_range self > 0
                then map (\<lambda>x. apply_transform env x M2 2 ''nearest'' 0) s1
                else s1);
          s3 = (if shear_range self > 0
                then map (\<lambda>x. apply_transform env x M3 2 ''nearest'' 0) s2
                else s2);
          s4 = (if zoom_range self > 0
                then map (\<lambda>x. apply_transform env x M4 1 ''nearest'' 0) s3
                else s3)
      in s4)"

definition augmented_as_claimed ::
  "'img env \<Rightarrow> FrameProcessor \<Rightarrow> frame list \<Rightarrow> string \<Rightarrow> bool" where
  "augmented_as_claimed env self x pth =
     (\<exists>sequence M1 M2 M3 M4 c g4 c5 g5.
        assemble env pth = Inr sequence \<and>
        and_then (vertical_flip_step self (geometric_pipeline env self M1 M2 M3 M4 sequence)
                    c g4)
          (\<lambda>(sequence, coin_flip, g). horizontal_flip_step self sequence coin_flip g) =
        Inr (x, c5, g5))"

text \<open>\<open>for pth in selected_paths: ...; X.append(sequence)\<close>.\<close>

fun batch_loop ::
  "'img env \<Rightarrow> FrameProcessor \<Rightarrow> string list \<Rightarrow> frame list list \<Rightarrow> bool option \<Rightarrow> rng
     \<Rightarrow> error + (frame list list \<times> bool option \<times> rng)" where
  "batch_loop env self [] X coin_flip g = Inr (X, coin_flip, g)"
| "batch_loop env self (pth # pths) X coin_flip g =
     and_then (augmented_sample env self pth coin_flip g) (\<lambda>(sequence, coin_flip1, g1).
       batch_loop env self pths (X @ [sequence]) coin_flip1 g1)"

subsection \<open>\<open>frame_generator\<close>: one pull\<close>

text \<open>The locals across pulls: \<open>sequence_paths\<close> and \<open>coin_flip\<close>.\<close>

definition frame_generator_next ::
  "'img env \<Rightarrow> FrameProcessor \<Rightarrow> (string \<times> 'l) list \<Rightarrow> (string list \<times> bool option) generator
     \<Rightarrow> rng
     \<Rightarrow> error + ((frame list list \<times> 'l list) \<times> (string list \<times> bool option) generator \<times> rng)"
  where
  "frame_generator_next env self paths2labels gen g =
     (let (sequence_paths, coin_flip) =
            (case gen of Created \<Rightarrow> (map fst paths2labels, None) | Suspended l \<Rightarrow> l)
      in and_then (random_sample sequence_paths (batch_size self) g) (\<lambda>(selected_paths, g1).
         and_then (mapM (getitem_dict paths2labels) selected_paths) (\<lambda>y.
         and_then (batch_loop env self selected_paths [] coin_flip g1) (\<lambda>(X, coin_flip1, g2).
           Inr ((X, y), Suspended (sequence_paths, coin_flip1), g2)))))"

section \<open>A concrete environment\<close>

text \<open>
  An environment to run the model on. Its \<open>apply_transform\<close> is an order-0 sampler
  with constant fill, standing in for keras's: like keras's it transforms the two axes
  other than \<open>channel_axis\<close>, each channel on its own. Its file system
  has three well-formed samples, \<open>/data/s1\<close> with two frames and \<open>/data/s2\<close>,
  \<open>/data/s3\<close> with one each, and a sample \<open>/data/bad\<close> with three entries and no
  \<open>frame1.png\<close>. The images are tiny: the environment does not resize.
\<close>

fun spatial :: "nat \<Rightarrow> 'a \<times> 'a \<times> 'a \<Rightarrow> 'a \<times> 'a" where
  "spatial channel_axis (i, j, k) =
     (if channel_axis = 0 then (j, k) else if channel_axis = 1 then (i, k) else (i, j))"

fun with_spatial :: "nat \<Rightarrow> 'a \<times> 'a \<times> 'a \<Rightarrow> 'a \<times> 'a \<Rightarrow> 'a \<times> 'a \<times> 'a" where
  "with_spatial channel_axis (i, j, k) (p, q) =
     (if channel_axis = 0 then (i, p, q) else if channel_axis = 1 then (p, j, q) else (p, q, k))"

definition nearest_sampler :: "frame \<Rightarrow> matrix \<Rightarrow> nat \<Rightarrow> string \<Rightarrow> real \<Rightarrow> frame" where
  "nearest_sampler x m channel_axis fill_mode cval =
     (case m of ((m11, m12, m13), (m21, m22, m23), _) \<Rightarrow>
        ndarray (shape x) (\<lambda>idx.
          let (p, q) = spatial channel_axis idx;
              (dp, dq) = spatial channel_axis (shape x);
              r = round (m11 * real p + m12 * real q + m13);
              c = round (m21 * real p + m22 * real q + m23)
          in if 0 \<le> r \<and> r < int dp \<and> 0 \<le> c \<and> c < int dq
             then getitem x (with_spatial channel_axis idx (nat r, nat c)) else cval))"

definition example_image :: "real \<Rightarrow> frame" where
  "example_image v = \<lparr> shape = (1, 2, 1), data = [v, 0] \<rparr>"

definition example_env :: "frame env" where
  "example_env =
     \<lparr> listdir = (\<lambda>d.
         if d = ''/data/s1'' then Some [''frame1.png'', ''frame0.png'']
         else if d = ''/data/s2'' then Some [''frame0.png'']
         else if d = ''/data/s3'' then Some [''frame0.png'']
         else if d = ''/data/bad'' then Some [''frame0.png'', ''frame2.png'', ''notes.txt'']
         else None),
       load_img = (\<lambda>p target_size.
         if p = ''/data/s1/frame0.png'' then Some (example_image 255)
         else if p = ''/data/s1/frame1.png'' then Some (example_image 510)
         else if p = ''/data/s2/frame0.png'' then Some (example_image 765)
         else if p = ''/data/s3/frame0.png'' then Some (example_image 1020)
         else if p = ''/data/bad/frame0.png'' then Some (example_image 0)
         else if p = ''/data/bad/frame2.png'' then Some (example_image 0)
         else None),
       img_to_array = (\<lambda>img. img),
       apply_transform = nearest_sampler \<rparr>"

text \<open>A random source whose numpy draws are all \<open>u\<close> and whose Python draws are all 0.\<close>

definition constant_rng :: "real \<Rightarrow> rng" where
  "constant_rng u = \<lparr> np_draws = (\<lambda>n. u), np_pos = 0, py_draws = (\<lambda>n. 0), py_pos = 0 \<rparr>"

text \<open>A configuration with every geometric transform enabled and no flip.\<close>

definition example_config :: FrameProcessor where
  "example_config =
     \<lparr> rotation_range = 10, width_shift_range = 1/10, height_shift_range = 1/5,
       shear_range = 3, zoom_range = 1/5, horizontal_flip = False, vertical_flip = False,
       batch_size = 2 \<rparr>"

text \<open>A mapping over the three well-formed samples, and the sequences they hold.\<close>

definition example_paths2labels :: "(string \<times> (real \<times> real)) list" where
  "example_paths2labels =
     [(''/data/s1'', (70, 16)), (''/data/s2'', (165 / 2, 91 / 5)), (''/data/s3'', (60, 12))]"

definition example_sequence_of :: "string \<Rightarrow> frame list" where
  "example_sequence_of p =
     (if p = ''/data/s1'' then [example_image 1, example_image 2]
      else if p = ''/data/s2'' then [example_image 3]
      else [example_image 4])"

section \<open>Construction\<close>

lemma init_accepts:
  "accepted_by_init rot wsr hsr zoom hflip vflip \<Longrightarrow>
     \<not> isl (FrameProcessor_init rot wsr hsr shear zoom hflip vflip bs)"
  by (cases "(rot, wsr, hsr, zoom, hflip, vflip)" rule: accepted_by_init.cases) auto

lemma init_rejects:
  "\<not> accepted_by_init rot wsr hsr zoom hflip vflip \<Longrightarrow>
     \<exists>msg. FrameProcessor_init rot wsr hsr shear zoom hflip vflip bs = Inl (AssertionError msg)"
  by (cases "(rot, wsr, hsr, zoom, hflip, vflip)" rule: accepted_by_init.cases)
     (auto split: pyval.splits)

text \<open>
  C5, as amended. Construction succeeds exactly for the configurations the assertions
  accept: \<open>rotation_range\<close> of type int (of any sign), both shift ranges floats
  within [0, 1], \<open>zoom_range\<close> a float (of any sign) and both flip flags booleans. It
  fails with an \<open>AssertionError\<close>, before any object exists, exactly for all others.
\<close>

theorem init_succeeds_iff_accepted:
  "isl (FrameProcessor_init rot wsr hsr shear zoom hflip vflip bs) =
     (\<not> accepted_by_init rot wsr hsr zoom hflip vflip) \<and>
   (\<exists>msg. FrameProcessor_init rot wsr hsr shear zoom hflip vflip bs = Inl (AssertionError msg)) =
     (\<not> accepted_by_init rot wsr hsr zoom hflip vflip)"
proof (cases "accepted_by_init rot wsr hsr zoom hflip vflip")
  case True
  from init_accepts [OF True, of shear bs] show ?thesis
    using True by (auto simp: isl_def)
next
  case False
  from init_rejects [OF False, of shear bs] show ?thesis
    using False by auto
qed

theorem init_succeeds_iff_accepted_witness:
  "\<not> isl (FrameProcessor_init (PyInt 10) (PyFloat (1/2)) (PyFloat 1) 0 (PyFloat (1/5))
            (PyBool True) (PyBool False) 4) \<and>
   isl (FrameProcessor_init (PyInt 10) (PyInt 0) (PyFloat 1) 0 (PyFloat (1/5))
            (PyBool True) (PyBool False) 4) \<and>
   isl (FrameProcessor_init (PyFloat 10) (PyFloat 0) (PyFloat 1) 0 (PyFloat (1/5))
            (PyBool True) (PyBool False) 4)"
  using init_succeeds_iff_accepted [of "PyInt 10" "PyFloat (1/2)" "PyFloat 1" 0 "PyFloat (1/5)"
          "PyBool True" "PyBool False" 4]
        init_succeeds_iff_accepted [of "PyInt 10" "PyInt 0" "PyFloat 1" 0 "PyFloat (1/5)"
          "PyBool True" "PyBool False" 4]
        init_succeeds_iff_accepted [of "PyFloat 10" "PyFloat 0" "PyFloat 1" 0 "PyFloat (1/5)"
          "PyBool True" "PyBool False" 4]
  by simp

text \<open>
  C5 as stated fails: a negative \<open>rotation_range\<close> and a negative \<open>zoom_range\<close> are
  accepted, since the constructor checks their types only.
\<close>

theorem init_accepts_negative_ranges:
  "FrameProcessor_init (PyInt (- 5)) (PyFloat 0) (PyFloat 0) 0 (PyFloat (- 1 / 2))
       (PyBool False) (PyBool False) 4 =
     Inr \<lparr> rotation_range = - 5, width_shift_range = 0, height_shift_range = 0,
           shear_range = 0, zoom_range = - 1 / 2, horizontal_flip = False,
           vertical_flip = False, batch_size = 4 \<rparr>"
  by simp

section \<open>Temporal coherence of the transforms\<close>

lemma first_shape_ok:
  "seq \<noteq> [] \<Longrightarrow> row_axis \<le> 2 \<Longrightarrow> col_axis \<le> 2 \<Longrightarrow>
     \<exists>h w. first_shape seq row_axis col_axis = Inr (h, w)"
  by (cases seq; cases "shape (hd seq)") (auto simp: first_shape_def and_then_def)

text \<open>
  What each transform returns once \<open>seq[0].shape\<close> has been read: the matrix is built
  from the draws and the shape of the first frame, and is the same for every frame.
\<close>

lemma rotation_result:
  assumes "first_shape seq row_axis col_axis = Inr (h, w)"
  shows "random_sequence_rotation env seq r row_axis col_axis ch fm cv g =
           Inr (map (\<lambda>x. apply_transform env x
                  (transform_matrix_offset_center
                     ((cos (deg2rad (- r + (r - - r) * np_draws g (np_pos g))),
                       - sin (deg2rad (- r + (r - - r) * np_draws g (np_pos g))), 0),
                      (sin (deg2rad (- r + (r - - r) * np_draws g (np_pos g))),
                       cos (deg2rad (- r + (r - - r) * np_draws g (np_pos g))), 0),
                      (0, 0, 1)) h w) ch fm cv) seq,
                g\<lparr>np_pos := np_pos g + 1\<rparr>)"
  by (simp add: random_sequence_rotation_def np_random_uniform_def np_random_sample_def
        assms and_then_def Let_def)

lemma shift_result:
  assumes "first_shape seq row_axis col_axis = Inr (h, w)"
  shows "random_sequence_shift env seq hr wr row_axis col_axis ch fm cv g =
           Inr (map (\<lambda>x. apply_transform env x
                  ((1, 0, (- hr + (hr - - hr) * np_draws g (np_pos g)) * real h),
                   (0, 1, (- wr + (wr - - wr) * np_draws g (Suc (np_pos g))) * real w),
                   (0, 0, 1)) ch fm cv) seq,
                g\<lparr>np_pos := np_pos g + 2\<rparr>)"
  by (simp add: random_sequence_shift_def np_random_uniform_def np_random_sample_def
        assms and_then_def Let_def)

lemma shear_result:
  assumes "first_shape seq row_axis col_axis = Inr (h, w)"
  shows "random_sequence_shear env seq sr row_axis col_axis ch fm cv g =
           Inr (map (\<lambda>x. apply_transform env x
                  (transform_matrix_offset_center
                     ((1, - sin (deg2rad (- sr + (sr - - sr) * np_draws g (np_pos g))), 0),
                      (0, cos (deg2rad (- sr + (sr - - sr) * np_draws g (np_pos g))), 0),
                      (0, 0, 1)) h w) ch fm cv) seq,
                g\<lparr>np_pos := np_pos g + 1\<rparr>)"
  by (simp add: random_sequence_shear_def np_random_uniform_def np_random_sample_def
        assms and_then_def Let_def)

lemma float64_one: "float64 1 = 1"
  by code_simp

lemma zoom_result:
  assumes "first_shape seq row_axis col_axis = Inr (h, w)"
  shows "random_sequence_zoom env seq zr row_axis col_axis ch fm cv g =
           Inr (map (\<lambda>x. apply_transform env x
                  (transform_matrix_offset_center
                     (if float64 (1 - zr) = 1 \<and> float64 (1 + zr) = 1 then identity_matrix
                      else ((float64 (1 - zr) + (float64 (1 + zr) - float64 (1 - zr))
                               * np_draws g (np_pos g), 0, 0),
                            (0, float64 (1 - zr) + (float64 (1 + zr) - float64 (1 - zr))
                               * np_draws g (Suc (np_pos g)), 0),
                            (0, 0, 1))) h w) ch fm cv) seq,
                g\<lparr>np_pos := np_pos g +
                  (if float64 (1 - zr) = 1 \<and> float64 (1 + zr) = 1 then 0 else 2)\<rparr>)"
  by (simp add: random_sequence_zoom_def np_random_uniform2_def np_random_uniform_def
        np_random_sample_def assms and_then_def Let_def identity_matrix_def)

lemma ex_matrix:
  "f = Inr (map (\<lambda>x. apply_transform env x M ch fm cv) seq, g1) \<Longrightarrow>
     \<exists>M. f = Inr (map (\<lambda>x. apply_transform env x M ch fm cv) seq, g1)"
  by (rule exI)

lemma ex_matrix_rng:
  "f = Inr (map (\<lambda>x. apply_transform env x M ch fm cv) seq, g1) \<Longrightarrow>
     \<exists>M g1. f = Inr (map (\<lambda>x. apply_transform env x M ch fm cv) seq, g1)"
  by blast

text \<open>
  C1, as amended. On a non-empty sequence of 3D frames (row and column axes among 0, 1,
  2), one call of \<open>random_sequence_rotation\<close>, \<open>random_sequence_shift\<close>,
  \<open>random_sequence_shear\<close> or \<open>random_sequence_zoom\<close> returns the frames transformed
  with one and the same matrix \<open>M\<close>, and draws its parameters at most once, never once
  per frame: it moves numpy's random source by 1 draw for rotation and shear, by 2 for
  shift, and for zoom by the 2 draws of its one call, or by none when the floats
  \<open>1 - zoom_range\<close> and \<open>1 + zoom_range\<close> both equal 1.
\<close>

theorem transforms_coherent:
  assumes "seq \<noteq> []" and "row_axis \<le> 2" and "col_axis \<le> 2"
  shows "(\<exists>M. random_sequence_rotation env seq r row_axis col_axis ch fm cv g =
            Inr (map (\<lambda>x. apply_transform env x M ch fm cv) seq, g\<lparr>np_pos := np_pos g + 1\<rparr>)) \<and>
         (\<exists>M. random_sequence_shift env seq hr wr row_axis col_axis ch fm cv g =
            Inr (map (\<lambda>x. apply_transform env x M ch fm cv) seq, g\<lparr>np_pos := np_pos g + 2\<rparr>)) \<and>
         (\<exists>M. random_sequence_shear env seq sr row_axis col_axis ch fm cv g =
            Inr (map (\<lambda>x. apply_transform env x M ch fm cv) seq, g\<lparr>np_pos := np_pos g + 1\<rparr>)) \<and>
         (\<exists>M. random_sequence_zoom env seq zr row_axis col_axis ch fm cv g =
            Inr (map (\<lambda>x. apply_transform env x M ch fm cv) seq,
                 g\<lparr>np_pos := np_pos g +
                   (if float64 (1 - zr) = 1 \<and> float64 (1 + zr) = 1 then 0 else 2)\<rparr>))"
proof -
  from first_shape_ok [OF assms] obtain h w
    where hw: "first_shape seq row_axis col_axis = Inr (h, w)" by blast
  show ?thesis
  proof (intro conjI)
    show "\<exists>M. random_sequence_rotation env seq r row_axis col_axis ch fm cv g =
            Inr (map (\<lambda>x. apply_transform env x M ch fm cv) seq, g\<lparr>np_pos := np_pos g + 1\<rparr>)"
      by (rule ex_matrix [OF rotation_result [OF hw]])
    show "\<exists>M. random_sequence_shift env seq hr wr row_axis col_axis ch fm cv g =
            Inr (map (\<lambda>x. apply_transform env x M ch fm cv) seq, g\<lparr>np_pos := np_pos g + 2\<rparr>)"
      by (rule ex_matrix [OF shift_result [OF hw]])
    show "\<exists>M. random_sequence_shear env seq sr row_axis col_axis ch fm cv g =
            Inr (map (\<lambda>x. apply_transform env x M ch fm cv) seq, g\<lparr>np_pos := np_pos g + 1\<rparr>)"
      by (rule ex_matrix [OF shear_result [OF hw]])
    show "\<exists>M. random_sequence_zoom env seq zr row_axis col_axis ch fm cv g =
            Inr (map (\<lambda>x. apply_transform env x M ch fm cv) seq,
                 g\<lparr>np_pos := np_pos g +
                   (if float64 (1 - zr) = 1 \<and> float64 (1 + zr) = 1 then 0 else 2)\<rparr>)"
      by (rule ex_matrix [OF zoom_result [OF hw]])
  qed
qed

theorem transforms_coherent_witness:
  "[example_image 1, example_image 2] \<noteq> [] \<and> (0::nat) \<le> 2 \<and> (1::nat) \<le> 2 \<and>
   (\<exists>M. random_sequence_rotation example_env [example_image 1, example_image 2] 10 0 1 2
            ''nearest'' 0 (constant_rng (1/2)) =
          Inr (map (\<lambda>x. apply_transform example_env x M 2 ''nearest'' 0)
                 [example_image 1, example_image 2],
               (constant_rng (1/2))\<lparr>np_pos := np_pos (constant_rng (1/2)) + 1\<rparr>)) \<and>
   (\<exists>M. random_sequence_shift example_env [example_image 1, example_image 2] (1/10) (1/5) 0 1 2
            ''nearest'' 0 (constant_rng (1/2)) =
          Inr (map (\<lambda>x. apply_transform example_env x M 2 ''nearest'' 0)
                 [example_image 1, example_image 2],
               (constant_rng (1/2))\<lparr>np_pos := np_pos (constant_rng (1/2)) + 2\<rparr>)) \<and>
   (\<exists>M. random_sequence_shear example_env [example_image 1, example_image 2] 3 0 1 2
            ''nearest'' 0 (constant_rng (1/2)) =
          Inr (map (\<lambda>x. apply_transform example_env x M 2 ''nearest'' 0)
                 [example_image 1, example_image 2],
               (constant_rng (1/2))\<lparr>np_pos := np_pos (constant_rng (1/2)) + 1\<rparr>)) \<and>
   (\<exists>M. random_sequence_zoom example_env [example_image 1, example_image 2] (1/5) 0 1 2
            ''nearest'' 0 (constant_rng (1/2)) =
          Inr (map (\<lambda>x. apply_transform example_env x M 2 ''nearest'' 0)
                 [example_image 1, example_image 2],
               (constant_rng (1/2))\<lparr>np_pos := np_pos (constant_rng (1/2)) + 2\<rparr>))"
proof -
  have h1: "[example_image 1, example_image 2] \<noteq> []" by simp
  have h2: "(0::nat) \<le> 2" and h3: "(1::nat) \<le> 2" by simp_all
  have fl: "float64 (1 - 1 / 5) \<noteq> 1" by code_simp
  then have count:
    "(if float64 (1 - 1 / 5) = 1 \<and> float64 (1 + 1 / 5) = 1 then 0 else 2) = (2::nat)"
    by (simp only: simp_thms if_False)
  note inst = transforms_coherent [OF h1 h2 h3, where env = example_env and r = 10 and ch = 2
      and fm = "''nearest''" and cv = 0 and g = "constant_rng (1/2)" and hr = "1/10"
      and wr = "1/5" and sr = 3 and zr = "1/5"]
  from h1 h2 h3 inst [unfolded count] show ?thesis by (intro conjI) blast+
qed

text \<open>
  C1 as stated, every invocation drawing its parameters exactly once, fails for zoom:
  with \<open>zoom_range = 0\<close>, and with \<open>zoom_range = 2 ^ -60\<close> (positive, so
  \<open>frame_generator\<close> makes the call), \<open>1 - zoom_range\<close> and \<open>1 + zoom_range\<close> are the
  float 1 and the call returns the random source as it found it: it draws nothing.
\<close>

theorem zoom_degenerate_draws_nothing:
  "random_sequence_zoom example_env [example_image 1, example_image 2] 0 0 1 1 ''nearest'' 0
       (constant_rng (1/2)) =
     Inr ([example_image 1, example_image 2], constant_rng (1/2)) \<and>
   random_sequence_zoom example_env [example_image 1, example_image 2] (1 / 2 ^ 60) 0 1 1
       ''nearest'' 0 (constant_rng (1/2)) =
     Inr ([example_image 1, example_image 2], constant_rng (1/2)) \<and>
   zoom_range (example_config\<lparr>zoom_range := 1 / 2 ^ 60\<rparr>) > 0"
proof -
  have hw: "first_shape [example_image 1, example_image 2] 0 1 = Inr (1, 2)"
    by (simp add: first_shape_def example_image_def and_then_def)
  have zero: "float64 (1 - 0) = 1 \<and> float64 (1 + 0) = 1" by code_simp
  have tiny: "float64 (1 - 1 / 2 ^ 60) = 1 \<and> float64 (1 + 1 / 2 ^ 60) = 1" by code_simp
  have ident: "transform_matrix_offset_center identity_matrix 1 2 = identity_matrix"
    by (simp add: transform_matrix_offset_center_def identity_matrix_def Let_def)
  have same: "map (\<lambda>x. apply_transform example_env x identity_matrix 1 ''nearest'' 0)
                [example_image 1, example_image 2] = [example_image 1, example_image 2]"
    by code_simp
  have a: "random_sequence_zoom example_env [example_image 1, example_image 2] 0 0 1 1
       ''nearest'' 0 (constant_rng (1/2)) =
     Inr ([example_image 1, example_image 2], constant_rng (1/2))"
    unfolding zoom_result [OF hw] if_P [OF zero] ident same by simp
  have b: "random_sequence_zoom example_env [example_image 1, example_image 2] (1 / 2 ^ 60) 0 1 1
       ''nearest'' 0 (constant_rng (1/2)) =
     Inr ([example_image 1, example_image 2], constant_rng (1/2))"
    unfolding zoom_result [OF hw] if_P [OF tiny] ident same by simp
  have c: "zoom_range (example_config\<lparr>zoom_range := 1 / 2 ^ 60\<rparr>) > 0" by simp
  from a b c show ?thesis by (intro conjI)
qed

section \<open>Zoom with a zero range\<close>

lemma offset_center_identity:
  "transform_matrix_offset_center identity_matrix h w = identity_matrix"
  by (simp add: transform_matrix_offset_center_def identity_matrix_def Let_def)

text \<open>
  C6, as amended. On a non-empty sequence, \<open>random_sequence_zoom\<close> with
  \<open>zoom_range = 0\<close> draws nothing and applies the identity matrix to every frame; so,
  where keras's \<open>apply_transform\<close> leaves each of these frames unchanged under the
  identity matrix, it returns the input sequence itself.
\<close>

theorem zoom_zero_is_identity:
  assumes "seq \<noteq> []" and "row_axis \<le> 2" and "col_axis \<le> 2"
      and "\<forall>x \<in> set seq. apply_transform env x identity_matrix ch fm cv = x"
  shows "random_sequence_zoom env seq 0 row_axis col_axis ch fm cv g = Inr (seq, g)"
proof -
  from first_shape_ok [OF assms(1-3)] obtain h w
    where hw: "first_shape seq row_axis col_axis = Inr (h, w)" by blast
  have "map (\<lambda>x. apply_transform env x identity_matrix ch fm cv) seq = seq"
    using assms(4) by (simp add: map_idI)
  then show ?thesis
    using offset_center_identity [of h w]
    by (simp add: random_sequence_zoom_def hw and_then_def identity_matrix_def float64_one)
qed

theorem zoom_zero_is_identity_witness:
  "[example_image 1, example_image 2] \<noteq> [] \<and> (0::nat) \<le> 2 \<and> (1::nat) \<le> 2 \<and>
   list_all (\<lambda>x. apply_transform example_env x identity_matrix 1 ''nearest'' 0 = x)
     [example_image 1, example_image 2] \<and>
   random_sequence_zoom example_env [example_image 1, example_image 2] 0 0 1 1 ''nearest'' 0
       (constant_rng (1/2)) =
     Inr ([example_image 1, example_image 2], constant_rng (1/2))"
proof -
  have h1: "[example_image 1, example_image 2] \<noteq> []" by simp
  have h2: "(0::nat) \<le> 2" and h3: "(1::nat) \<le> 2" by simp_all
  have h4: "list_all (\<lambda>x. apply_transform example_env x identity_matrix 1 ''nearest'' 0 = x)
     [example_image 1, example_image 2]"
    by code_simp
  then have h4': "\<forall>x \<in> set [example_image 1, example_image 2].
      apply_transform example_env x identity_matrix 1 ''nearest'' 0 = x"
    by (simp only: list_all_iff)
  from zoom_zero_is_identity [OF h1 h2 h3 h4', of "constant_rng (1/2)"] h1 h2 h3 h4
  show ?thesis by (intro conjI)
qed

text \<open>
  C6 as stated, for every sequence, fails on the empty one: \<open>seq[0]\<close> raises
  \<open>IndexError\<close>, so nothing is returned.
\<close>

theorem zoom_zero_empty_sequence_raises:
  "random_sequence_zoom example_env [] 0 0 1 1 ''nearest'' 0 (constant_rng (1/2)) = Inl IndexError"
  by (simp add: random_sequence_zoom_def first_shape_def and_then_def float64_one)

section \<open>The augmentation steps of \<open>frame_generator\<close>\<close>

text \<open>
  C4: what the code does at \<open>width_shift_range = 0.5\<close>, \<open>height_shift_range = 0\<close>
  on a 224 x 224 x 3 frame, each raw draw being 0.25. The shift step passes the width
  range where \<open>random_sequence_shift\<close> takes the height range, so the row translation
  \<open>tx\<close> is \<open>(-0.5 + 1.0 * 0.25) * 224 = -56\<close> although \<open>height_shift_range\<close> is 0, and
  the column translation \<open>ty\<close> is 0 although \<open>width_shift_range\<close> is 0.5. The claim
  gives \<open>tx = 0\<close> and \<open>ty = -56\<close>.
\<close>

theorem shift_step_swaps_ranges:
  "shift_step env
     \<lparr> rotation_range = 0, width_shift_range = 1/2, height_shift_range = 0,
       shear_range = 0, zoom_range = 0, horizontal_flip = False, vertical_flip = False,
       batch_size = 1 \<rparr>
     [\<lparr> shape = (224, 224, 3), data = d \<rparr>] (constant_rng (1/4)) =
   Inr ([apply_transform env \<lparr> shape = (224, 224, 3), data = d \<rparr>
           ((1, 0, - 56), (0, 1, 0), (0, 0, 1)) 2 ''nearest'' 0],
        (constant_rng (1/4))\<lparr>np_pos := 2\<rparr>)"
  by (simp add: shift_step_def random_sequence_shift_def first_shape_def and_then_def
        np_random_uniform_def np_random_sample_def constant_rng_def Let_def)

text \<open>
  C3: what the code does with both flips enabled and every other transform off. The
  horizontal flip (axis 2) is applied exactly when the vertical one (axis 1) was: the
  coin of the vertical flip decides both, and the second draw is made and discarded.
\<close>

theorem horizontal_flip_reuses_vertical_coin:
  "augment env
     \<lparr> rotation_range = 0, width_shift_range = 0, height_shift_range = 0,
       shear_range = 0, zoom_range = 0, horizontal_flip = True, vertical_flip = True,
       batch_size = b \<rparr> sequence c g =
   (if np_draws g (np_pos g) > 0.5
    then and_then (sequence_flip_axis sequence 1) (\<lambda>s1.
         and_then (sequence_flip_axis s1 2) (\<lambda>s2.
           Inr (s2, Some True, g\<lparr>np_pos := np_pos g + 2\<rparr>)))
    else Inr (sequence, Some False, g\<lparr>np_pos := np_pos g + 2\<rparr>))"
  by (simp add: augment_def rotation_step_def shift_step_def shear_step_def zoom_step_def
        vertical_flip_step_def horizontal_flip_step_def and_then_def np_random_sample_def
        Let_def split: sum.splits)

text \<open>
  C2: what the code does with \<open>horizontal_flip\<close> enabled and \<open>vertical_flip\<close>
  disabled, a valid configuration, on a one-key mapping with \<open>batch_size = 1\<close>: the
  first pull raises (\<open>UnboundLocalError\<close> once the sample is assembled) and yields
  no batch.
\<close>

theorem horizontal_flip_alone_raises:
  "frame_generator_next env
     \<lparr> rotation_range = 0, width_shift_range = 0, height_shift_range = 0,
       shear_range = 0, zoom_range = 0, horizontal_flip = True, vertical_flip = False,
       batch_size = 1 \<rparr> [(pth, label)] Created g =
   and_then (assemble env pth) (\<lambda>sequence. Inl UnboundLocalError) \<and>
   isl (frame_generator_next env
     \<lparr> rotation_range = 0, width_shift_range = 0, height_shift_range = 0,
       shear_range = 0, zoom_range = 0, horizontal_flip = True, vertical_flip = False,
       batch_size = 1 \<rparr> [(pth, label)] Created g)"
  by (simp add: frame_generator_next_def random_sample_def randbelow_def getitem_dict_def
        augmented_sample_def augment_def rotation_step_def shift_step_def shear_step_def
        zoom_step_def vertical_flip_step_def horizontal_flip_step_def and_then_def
        Let_def split: sum.splits)

section \<open>The round robin of \<open>testing_generator\<close>\<close>

lemma getitem_dict_nth:
  assumes "distinct (map fst d)" and "i < length d"
  shows "getitem_dict d (map fst d ! i) = Inr (snd (d ! i))"
proof -
  from assms(2) have "(fst (d ! i), snd (d ! i)) \<in> set d" by simp
  with assms(1) have "map_of d (fst (d ! i)) = Some (snd (d ! i))" by simp
  with assms(2) show ?thesis by (simp add: getitem_dict_def)
qed

lemma testing_generator_next_suspended:
  assumes "distinct (map fst d)" and "c < length d"
      and "\<forall>p \<in> set (map fst d). assemble env p = Inr (sequence_of p)"
  shows "testing_generator_next env d (Suspended (map fst d, c)) =
           Inr (([sequence_of (fst (d ! c))], snd (d ! c)),
                Suspended (map fst d, Suc c mod length d))"
proof -
  from assms(2) have key: "map fst d ! c = fst (d ! c)" by simp
  from assms(2) have "fst (d ! c) \<in> set (map fst d)" by (metis key length_map nth_mem)
  with assms(3) have asm: "assemble env (fst (d ! c)) = Inr (sequence_of (fst (d ! c)))" by blast
  have wrap: "(if Suc c = length d then 0 else Suc c) = Suc c mod length d"
    using assms(2) by auto
  from getitem_dict_nth [OF assms(1,2)] have lab: "getitem_dict d (fst (d ! c)) = Inr (snd (d ! c))"
    by (simp add: key)
  show ?thesis
    using assms(2) wrap
    by (simp add: testing_generator_next_def and_then_def key lab asm Let_def)
qed

lemma testing_generator_next_created:
  "testing_generator_next env d Created = testing_generator_next env d (Suspended (map fst d, 0))"
  by (simp add: testing_generator_next_def)

lemma testing_generator_pulls_suspended:
  assumes "distinct (map fst d)"
      and "\<forall>p \<in> set (map fst d). assemble env p = Inr (sequence_of p)"
  shows "c < length d \<Longrightarrow>
         testing_generator_pulls env d n (Suspended (map fst d, c)) =
           Inr (map (\<lambda>i. ([sequence_of (fst (d ! ((c + i) mod length d)))],
                          snd (d ! ((c + i) mod length d)))) [0..<n],
                Suspended (map fst d, (c + n) mod length d))"
proof (induction n arbitrary: c)
  case 0
  then show ?case by simp
next
  case (Suc n)
  let ?K = "length d"
  from Suc.prems have K: "0 < ?K" by (cases d) simp_all
  then have c': "Suc c mod ?K < ?K" by simp
  have shift: "(Suc c mod ?K + i) mod ?K = (c + Suc i) mod ?K" for i
    by (simp add: mod_add_left_eq)
  have upt: "[0..<Suc n] = 0 # map Suc [0..<n]"
    by (simp add: upt_conv_Cons map_Suc_upt del: upt_Suc)
  have step: "testing_generator_next env d (Suspended (map fst d, c)) =
           Inr (([sequence_of (fst (d ! c))], snd (d ! c)),
                Suspended (map fst d, Suc c mod ?K))"
    by (rule testing_generator_next_suspended [OF assms(1) Suc.prems assms(2)])
  note ih = Suc.IH [OF c']
  have "testing_generator_pulls env d (Suc n) (Suspended (map fst d, c)) =
          Inr (([sequence_of (fst (d ! c))], snd (d ! c)) #
               map (\<lambda>i. ([sequence_of (fst (d ! ((Suc c mod ?K + i) mod ?K)))],
                          snd (d ! ((Suc c mod ?K + i) mod ?K)))) [0..<n],
               Suspended (map fst d, (Suc c mod ?K + n) mod ?K))"
    by (simp add: step ih and_then_def)
  also have "\<dots> = Inr (map (\<lambda>i. ([sequence_of (fst (d ! ((c + i) mod ?K)))],
                          snd (d ! ((c + i) mod ?K)))) (0 # map Suc [0..<n]),
                Suspended (map fst d, (c + Suc n) mod ?K))"
    using Suc.prems by (simp add: shift o_def)
  finally show ?case by (simp only: upt)
qed

text \<open>
  C7. For a non-empty mapping with distinct keys whose samples all assemble, the first
  \<open>n + 1\<close> pulls of \<open>testing_generator\<close> yield, as pull number \<open>i\<close> (from 0), the
  batch \<open>X = [sequence]\<close>, \<open>y = label\<close> of the key at position \<open>i mod K\<close> of the
  mapping's iteration order, the sequence being the assembled one with nothing applied to
  it; the generator is then suspended with its cursor at \<open>(n + 1) mod K\<close>. No random
  number is drawn: the pull does not take the random source.
\<close>

theorem testing_generator_round_robin:
  assumes "paths2labels \<noteq> []" and "distinct (map fst paths2labels)"
      and "\<forall>p \<in> set (map fst paths2labels). assemble env p = Inr (sequence_of p)"
  shows "testing_generator_pulls env paths2labels (Suc n) Created =
           Inr (map (\<lambda>i. ([sequence_of (fst (paths2labels ! (i mod length paths2labels)))],
                          snd (paths2labels ! (i mod length paths2labels)))) [0..<Suc n],
                Suspended (map fst paths2labels, Suc n mod length paths2labels))"
proof -
  from assms(1) have K: "0 < length paths2labels" by simp
  have "testing_generator_pulls env paths2labels (Suc n) Created =
        testing_generator_pulls env paths2labels (Suc n) (Suspended (map fst paths2labels, 0))"
    by (simp add: testing_generator_next_created)
  also have "\<dots> = Inr (map (\<lambda>i. ([sequence_of (fst (paths2labels ! ((0 + i) mod length paths2labels)))],
                          snd (paths2labels ! ((0 + i) mod length paths2labels)))) [0..<Suc n],
                Suspended (map fst paths2labels, (0 + Suc n) mod length paths2labels))"
    by (rule testing_generator_pulls_suspended [OF assms(2,3) K])
  finally show ?thesis by simp
qed

theorem testing_generator_round_robin_witness:
  "example_paths2labels \<noteq> [] \<and> distinct (map fst example_paths2labels) \<and>
   list_all (\<lambda>p. assemble example_env p = Inr (example_sequence_of p))
     (map fst example_paths2labels) \<and>
   testing_generator_pulls example_env example_paths2labels (Suc 3) Created =
     Inr ([([[example_image 1, example_image 2]], (70, 16)),
           ([[example_image 3]], (165 / 2, 91 / 5)),
           ([[example_image 4]], (60, 12)),
           ([[example_image 1, example_image 2]], (70, 16))],
          Suspended ([''/data/s1'', ''/data/s2'', ''/data/s3''], 1))"
proof -
  have h1: "example_paths2labels \<noteq> []" by (simp add: example_paths2labels_def)
  have h2: "distinct (map fst example_paths2labels)" by (simp add: example_paths2labels_def)
  have h3: "list_all (\<lambda>p. assemble example_env p = Inr (example_sequence_of p))
     (map fst example_paths2labels)"
    by code_simp
  then have h3': "\<forall>p \<in> set (map fst example_paths2labels).
      assemble example_env p = Inr (example_sequence_of p)"
    by (simp only: list_all_iff)
  have ev: "Inr (map (\<lambda>i. ([example_sequence_of
                 (fst (example_paths2labels ! (i mod length example_paths2labels)))],
               snd (example_paths2labels ! (i mod length example_paths2labels)))) [0..<Suc 3],
             Suspended (map fst example_paths2labels, Suc 3 mod length example_paths2labels)) =
           (Inr ([([[example_image 1, example_image 2]], (70, 16)),
           ([[example_image 3]], (165 / 2, 91 / 5)),
           ([[example_image 4]], (60, 12)),
           ([[example_image 1, example_image 2]], (70, 16))],
          Suspended ([''/data/s1'', ''/data/s2'', ''/data/s3''], 1))
           :: error + ((frame list list \<times> (real \<times> real)) list \<times> (string list \<times> nat) generator))"
    by code_simp
  from testing_generator_round_robin [OF h1 h2 h3', of 3]
  have "testing_generator_pulls example_env example_paths2labels (Suc 3) Created =
     Inr ([([[example_image 1, example_image 2]], (70, 16)),
           ([[example_image 3]], (165 / 2, 91 / 5)),
           ([[example_image 4]], (60, 12)),
           ([[example_image 1, example_image 2]], (70, 16))],
          Suspended ([''/data/s1'', ''/data/s2'', ''/data/s3''], 1))"
    by (simp only: ev)
  with h1 h2 h3 show ?thesis by (intro conjI)
qed

section \<open>The frames of a sample\<close>






section \<open>The batches of \<open>frame_generator\<close>\<close>

lemma and_then_Inr: "and_then (Inr x) f = f x"
  by (simp add: and_then_def)

lemma and_then_Inl: "and_then (Inl e) f = Inl e"
  by (simp add: and_then_def)

lemma pool_step:
  assumes "distinct xs" and "j < length xs"
  shows "distinct (butlast (xs[j := last xs])) \<and>
         set (butlast (xs[j := last xs])) = set xs - {xs ! j} \<and>
         length (butlast (xs[j := last xs])) = length xs - 1"
proof (cases xs rule: rev_cases)
  case Nil
  with assms(2) show ?thesis by simp
next
  case (snoc ys z)
  from snoc assms(1) have d: "distinct ys" and z: "z \<notin> set ys" by simp_all
  have sx: "set xs = insert z (set ys)" and lx: "length xs = Suc (length ys)"
    by (simp_all add: snoc)
  show ?thesis
  proof (cases "j = length ys")
    case True
    then have "butlast (xs[j := last xs]) = ys" and "xs ! j = z" by (simp_all add: snoc)
    with d z sx lx show ?thesis by auto
  next
    case False
    with assms(2) lx have j: "j < length ys" by simp
    from j have upd: "butlast (xs[j := last xs]) = ys[j := z]"
      by (simp add: snoc list_update_append1)
    from d z have dist: "distinct (ys[j := z])" by (simp add: distinct_list_update)
    from d j have seteq: "set (ys[j := z]) = insert z (set ys - {ys ! j})"
      by (rule set_update_distinct)
    from j have xj: "xs ! j = ys ! j" by (simp add: snoc nth_append)
    from j have mem: "ys ! j \<in> set ys" by simp
    with z have ne: "z \<noteq> ys ! j" by auto
    have "set xs - {xs ! j} = insert z (set ys - {ys ! j})"
      unfolding sx xj using ne by blast
    with dist seteq lx show ?thesis unfolding upd by simp
  qed
qed

lemma sample_loop_distinct:
  "distinct pool \<Longrightarrow> k \<le> length pool \<Longrightarrow>
     length (fst (sample_loop pool k g)) = k \<and>
     distinct (fst (sample_loop pool k g)) \<and>
     set (fst (sample_loop pool k g)) \<subseteq> set pool"
proof (induction k arbitrary: pool g)
  case 0
  then show ?case by simp
next
  case (Suc k)
  let ?j = "py_draws g (py_pos g) mod length pool"
  let ?g1 = "g\<lparr>py_pos := py_pos g + 1\<rparr>"
  let ?pool1 = "butlast (pool[?j := last pool])"
  from Suc.prems(2) have pos: "0 < length pool" by linarith
  then have j: "?j < length pool" by simp
  from pool_step [OF Suc.prems(1) j]
  have d1: "distinct ?pool1" and s1: "set ?pool1 = set pool - {pool ! ?j}"
    and l1: "length ?pool1 = length pool - 1" by simp_all
  from l1 Suc.prems(2) have "k \<le> length ?pool1" by simp
  from Suc.IH [OF d1 this, of ?g1]
  have ih: "length (fst (sample_loop ?pool1 k ?g1)) = k"
    "distinct (fst (sample_loop ?pool1 k ?g1))"
    "set (fst (sample_loop ?pool1 k ?g1)) \<subseteq> set ?pool1" by simp_all
  have step: "fst (sample_loop pool (Suc k) g) = pool ! ?j # fst (sample_loop ?pool1 k ?g1)"
    by (simp add: randbelow_def Let_def split: prod.splits)
  from j have "pool ! ?j \<in> set pool" by simp
  with ih s1 show ?case unfolding step by auto
qed

lemma getitem_dict_keys:
  "set paths \<subseteq> set (map fst d) \<Longrightarrow>
     mapM (getitem_dict d) paths = Inr (map (\<lambda>p. the (map_of d p)) paths)"
proof (induction paths)
  case Nil
  then show ?case by simp
next
  case (Cons p paths)
  from Cons.prems have "p \<in> fst ` set d" by simp
  then have "map_of d p \<noteq> None" by (simp add: map_of_eq_None_iff)
  then obtain l where "map_of d p = Some l" by blast
  with Cons show ?case by (simp add: getitem_dict_def)
qed

lemma mapM_total:
  "(\<And>x. f x = Inr (h x)) \<Longrightarrow> mapM f xs = Inr (map h xs)"
  by (induction xs) simp_all

lemma sequence_flip_axis_ok:
  assumes "axis \<le> 2"
  shows "\<exists>flipped. sequence_flip_axis seq axis = Inr flipped"
proof -
  from assms have a: "mapM (\<lambda>x. swapaxes x axis 0) seq =
      Inr (map (\<lambda>x. ndarray (exchange axis 0 (shape x)) (\<lambda>idx. getitem x (exchange axis 0 idx))) seq)"
    by (intro mapM_total) (simp add: swapaxes_def)
  from assms have b: "mapM (\<lambda>x. swapaxes x 0 axis) ys =
      Inr (map (\<lambda>x. ndarray (exchange 0 axis (shape x)) (\<lambda>idx. getitem x (exchange 0 axis idx))) ys)"
    for ys
    by (intro mapM_total) (simp add: swapaxes_def)
  show ?thesis by (simp add: sequence_flip_axis_def a b and_then_def)
qed

lemma geometric_steps_ok:
  assumes "sequence \<noteq> []"
  shows "\<exists>s1 g1. rotation_step env self sequence g = Inr (s1, g1) \<and> s1 \<noteq> []"
    and "\<exists>s1 g1. shift_step env self sequence g = Inr (s1, g1) \<and> s1 \<noteq> []"
    and "\<exists>s1 g1. shear_step env self sequence g = Inr (s1, g1) \<and> s1 \<noteq> []"
    and "\<exists>s1 g1. zoom_step env self sequence g = Inr (s1, g1) \<and> s1 \<noteq> []"
proof -
  have "(0::nat) \<le> 2" and "(1::nat) \<le> 2" by simp_all
  from first_shape_ok [OF assms this] obtain h w
    where hw: "first_shape sequence 0 1 = Inr (h, w)" by blast
  have r: "\<exists>s1 g1. random_sequence_rotation env sequence r 0 1 2 ''nearest'' 0 g = Inr (s1, g1)
                   \<and> s1 \<noteq> []" for r
    unfolding rotation_result [OF hw] using assms by simp
  have t: "\<exists>s1 g1. random_sequence_shift env sequence a b 0 1 2 ''nearest'' 0 g = Inr (s1, g1)
                   \<and> s1 \<noteq> []" for a b
    unfolding shift_result [OF hw] using assms by simp
  have s: "\<exists>s1 g1. random_sequence_shear env sequence r 0 1 2 ''nearest'' 0 g = Inr (s1, g1)
                   \<and> s1 \<noteq> []" for r
    unfolding shear_result [OF hw] using assms by simp
  have z: "\<exists>s1 g1. random_sequence_zoom env sequence r 0 1 1 ''nearest'' 0 g = Inr (s1, g1)
                   \<and> s1 \<noteq> []" for r
    unfolding zoom_result [OF hw] using assms by simp
  show "\<exists>s1 g1. rotation_step env self sequence g = Inr (s1, g1) \<and> s1 \<noteq> []"
    unfolding rotation_step_def using r assms by (simp only: split: if_split) blast
  show "\<exists>s1 g1. shift_step env self sequence g = Inr (s1, g1) \<and> s1 \<noteq> []"
    unfolding shift_step_def using t assms by (simp only: split: if_split) blast
  show "\<exists>s1 g1. shear_step env self sequence g = Inr (s1, g1) \<and> s1 \<noteq> []"
    unfolding shear_step_def using s assms by (simp only: split: if_split) blast
  show "\<exists>s1 g1. zoom_step env self sequence g = Inr (s1, g1) \<and> s1 \<noteq> []"
    unfolding zoom_step_def using z assms by (simp only: split: if_split) blast
qed

lemma flip_steps_ok:
  assumes "horizontal_flip self \<longrightarrow> vertical_flip self"
  shows "\<exists>s2 c2 g2.
           and_then (vertical_flip_step self sequence c g) (\<lambda>(sequence, coin_flip, g).
             horizontal_flip_step self sequence coin_flip g) = Inr (s2, c2, g2)"
proof -
  have h: "\<exists>s2 c2 g2. horizontal_flip_step self s (Some coin) g1 = Inr (s2, c2, g2)"
    for s coin g1
  proof -
    from sequence_flip_axis_ok [of 2 s] obtain f where "sequence_flip_axis s 2 = Inr f"
      by auto
    then show ?thesis
      by (simp add: horizontal_flip_step_def np_random_sample_def and_then_Inr Let_def)
  qed
  show ?thesis
  proof (cases "vertical_flip self")
    case True
    from sequence_flip_axis_ok [of "Suc 0" sequence] obtain f1
      where f1: "sequence_flip_axis sequence (Suc 0) = Inr f1" by auto
    define coin where "coin = (np_draws g (np_pos g) > 0.5)"
    define g1 where "g1 = g\<lparr>np_pos := np_pos g + 1\<rparr>"
    have v: "vertical_flip_step self sequence c g =
               Inr (if coin then f1 else sequence, Some coin, g1)"
      using True
      by (simp add: vertical_flip_step_def np_random_sample_def Let_def f1 and_then_Inr
            coin_def g1_def)
    show ?thesis
      unfolding v and_then_Inr using h [of "if coin then f1 else sequence" coin g1]
      by simp
  next
    case False
    with assms have nh: "\<not> horizontal_flip self" by blast
    from False have v: "vertical_flip_step self sequence c g = Inr (sequence, c, g)"
      by (simp add: vertical_flip_step_def)
    show ?thesis
      unfolding v and_then_Inr using nh by (simp add: horizontal_flip_step_def)
  qed
qed

lemma augment_ok:
  assumes "sequence \<noteq> []" and "horizontal_flip self \<longrightarrow> vertical_flip self"
  shows "\<exists>x c1 g1. augment env self sequence c g = Inr (x, c1, g1)"
proof -
  from geometric_steps_ok(1) [OF assms(1)] obtain s1 g1
    where 1: "rotation_step env self sequence g = Inr (s1, g1)" and n1: "s1 \<noteq> []" by blast
  from geometric_steps_ok(2) [OF n1] obtain s2 g2
    where 2: "shift_step env self s1 g1 = Inr (s2, g2)" and n2: "s2 \<noteq> []" by blast
  from geometric_steps_ok(3) [OF n2] obtain s3 g3
    where 3: "shear_step env self s2 g2 = Inr (s3, g3)" and n3: "s3 \<noteq> []" by blast
  from geometric_steps_ok(4) [OF n3] obtain s4 g4
    where 4: "zoom_step env self s3 g3 = Inr (s4, g4)" and n4: "s4 \<noteq> []" by blast
  have "augment env self sequence c g =
          and_then (vertical_flip_step self s4 c g4) (\<lambda>(sequence, coin_flip, g).
             horizontal_flip_step self sequence coin_flip g)"
    by (simp add: augment_def 1 2 3 4 and_then_Inr)
  with flip_steps_ok [OF assms(2), of s4 c g4] show ?thesis by simp
qed


lemma augmented_sample_ok:
  assumes "horizontal_flip self \<longrightarrow> vertical_flip self"
      and "assemble env p = Inr sequence" and "sequence \<noteq> []"
  shows "\<exists>x c1 g1. augmented_sample env self p c g = Inr (x, c1, g1)"
  using augment_ok [OF assms(3,1), of env c g]
  by (simp add: augmented_sample_def assms(2) and_then_Inr)

lemma rotation_step_form:
  assumes "sequence \<noteq> []"
  shows "\<exists>M g1. rotation_step env self sequence g =
           Inr (if real_of_int (rotation_range self) > 0
                then map (\<lambda>x. apply_transform env x M 2 ''nearest'' 0) sequence
                else sequence, g1)"
proof (cases "real_of_int (rotation_range self) > 0")
  case True
  have "(0::nat) \<le> 2" and "(1::nat) \<le> 2" by simp_all
  from first_shape_ok [OF assms this] obtain h w
    where hw: "first_shape sequence 0 1 = Inr (h, w)" by blast
  from True have e: "rotation_step env self sequence g =
      random_sequence_rotation env sequence (real_of_int (rotation_range self)) 0 1 2
        ''nearest'' 0 g"
    by (simp add: rotation_step_def)
  show ?thesis unfolding if_P [OF True]
    by (rule ex_matrix_rng [OF trans [OF e rotation_result [OF hw]]])
next
  case False
  then have "rotation_step env self sequence g = Inr (sequence, g)"
    by (simp add: rotation_step_def)
  then show ?thesis unfolding if_not_P [OF False] by blast
qed

lemma shift_step_form:
  assumes "sequence \<noteq> []"
  shows "\<exists>M g1. shift_step env self sequence g =
           Inr (if width_shift_range self > 0 \<or> height_shift_range self > 0
                then map (\<lambda>x. apply_transform env x M 2 ''nearest'' 0) sequence
                else sequence, g1)"
proof (cases "width_shift_range self > 0 \<or> height_shift_range self > 0")
  case True
  have "(0::nat) \<le> 2" and "(1::nat) \<le> 2" by simp_all
  from first_shape_ok [OF assms this] obtain h w
    where hw: "first_shape sequence 0 1 = Inr (h, w)" by blast
  from True have e: "shift_step env self sequence g =
      random_sequence_shift env sequence (width_shift_range self) (height_shift_range self)
        0 1 2 ''nearest'' 0 g"
    by (simp add: shift_step_def)
  show ?thesis unfolding if_P [OF True]
    by (rule ex_matrix_rng [OF trans [OF e shift_result [OF hw]]])
next
  case False
  then have "shift_step env self sequence g = Inr (sequence, g)"
    by (simp add: shift_step_def)
  then show ?thesis unfolding if_not_P [OF False] by blast
qed

lemma shear_step_form:
  assumes "sequence \<noteq> []"
  shows "\<exists>M g1. shear_step env self sequence g =
           Inr (if shear_range self > 0
                then map (\<lambda>x. apply_transform env x M 2 ''nearest'' 0) sequence
                else sequence, g1)"
proof (cases "shear_range self > 0")
  case True
  have "(0::nat) \<le> 2" and "(1::nat) \<le> 2" by simp_all
  from first_shape_ok [OF assms this] obtain h w
    where hw: "first_shape sequence 0 1 = Inr (h, w)" by blast
  from True have e: "shear_step env self sequence g =
      random_sequence_shear env sequence (shear_range self) 0 1 2 ''nearest'' 0 g"
    by (simp add: shear_step_def)
  show ?thesis unfolding if_P [OF True]
    by (rule ex_matrix_rng [OF trans [OF e shear_result [OF hw]]])
next
  case False
  then have "shear_step env self sequence g = Inr (sequence, g)"
    by (simp add: shear_step_def)
  then show ?thesis unfolding if_not_P [OF False] by blast
qed

lemma zoom_step_form:
  assumes "sequence \<noteq> []"
  shows "\<exists>M g1. zoom_step env self sequence g =
           Inr (if zoom_range self > 0
                then map (\<lambda>x. apply_transform env x M 1 ''nearest'' 0) sequence
                else sequence, g1)"
proof (cases "zoom_range self > 0")
  case True
  have "(0::nat) \<le> 2" and "(1::nat) \<le> 2" by simp_all
  from first_shape_ok [OF assms this] obtain h w
    where hw: "first_shape sequence 0 1 = Inr (h, w)" by blast
  from True have e: "zoom_step env self sequence g =
      random_sequence_zoom env sequence (zoom_range self) 0 1 1 ''nearest'' 0 g"
    by (simp add: zoom_step_def)
  show ?thesis unfolding if_P [OF True]
    by (rule ex_matrix_rng [OF trans [OF e zoom_result [OF hw]]])
next
  case False
  then have "zoom_step env self sequence g = Inr (sequence, g)"
    by (simp add: zoom_step_def)
  then show ?thesis unfolding if_not_P [OF False] by blast
qed

text \<open>
  The loop body after the assembly, on a non-empty sequence: the two flip steps on the
  sequence transformed by the geometric steps as C10 reads them.
\<close>

lemma augment_form:
  assumes "sequence \<noteq> []"
  shows "\<exists>M1 M2 M3 M4 g4.
           augment env self sequence c g =
             and_then (vertical_flip_step self
                         (geometric_pipeline env self M1 M2 M3 M4 sequence) c g4)
               (\<lambda>(sequence, coin_flip, g). horizontal_flip_step self sequence coin_flip g)"
proof -
  from rotation_step_form [OF assms, of env self g] obtain M1 g1 where
    1: "rotation_step env self sequence g =
          Inr (if real_of_int (rotation_range self) > 0
               then map (\<lambda>x. apply_transform env x M1 2 ''nearest'' 0) sequence
               else sequence, g1)"
    by blast
  define s1 where "s1 = (if real_of_int (rotation_range self) > 0
               then map (\<lambda>x. apply_transform env x M1 2 ''nearest'' 0) sequence
               else sequence)"
  from assms have n1: "s1 \<noteq> []" by (simp add: s1_def)
  from shift_step_form [OF n1, of env self g1] obtain M2 g2 where
    2: "shift_step env self s1 g1 =
          Inr (if width_shift_range self > 0 \<or> height_shift_range self > 0
               then map (\<lambda>x. apply_transform env x M2 2 ''nearest'' 0) s1
               else s1, g2)"
    by blast
  define s2 where "s2 = (if width_shift_range self > 0 \<or> height_shift_range self > 0
               then map (\<lambda>x. apply_transform env x M2 2 ''nearest'' 0) s1
               else s1)"
  from n1 have n2: "s2 \<noteq> []" by (simp add: s2_def)
  from shear_step_form [OF n2, of env self g2] obtain M3 g3 where
    3: "shear_step env self s2 g2 =
          Inr (if shear_range self > 0
               then map (\<lambda>x. apply_transform env x M3 2 ''nearest'' 0) s2
               else s2, g3)"
    by blast
  define s3 where "s3 = (if shear_range self > 0
               then map (\<lambda>x. apply_transform env x M3 2 ''nearest'' 0) s2
               else s2)"
  from n2 have n3: "s3 \<noteq> []" by (simp add: s3_def)
  from zoom_step_form [OF n3, of env self g3] obtain M4 g4 where
    4: "zoom_step env self s3 g3 =
          Inr (if zoom_range self > 0
               then map (\<lambda>x. apply_transform env x M4 1 ''nearest'' 0) s3
               else s3, g4)"
    by blast
  define s4 where "s4 = (if zoom_range self > 0
               then map (\<lambda>x. apply_transform env x M4 1 ''nearest'' 0) s3
               else s3)"
  have gp: "geometric_pipeline env self M1 M2 M3 M4 sequence = s4"
    by (simp only: geometric_pipeline_def Let_def s1_def s2_def s3_def s4_def)
  have "augment env self sequence c g =
          and_then (vertical_flip_step self s4 c g4)
            (\<lambda>(sequence, coin_flip, g). horizontal_flip_step self sequence coin_flip g)"
    unfolding augment_def 1 s1_def [symmetric] and_then_Inr prod.case
      2 s2_def [symmetric] 3 s3_def [symmetric] 4 s4_def [symmetric] ..
  then have "augment env self sequence c g =
          and_then (vertical_flip_step self
                      (geometric_pipeline env self M1 M2 M3 M4 sequence) c g4)
            (\<lambda>(sequence, coin_flip, g). horizontal_flip_step self sequence coin_flip g)"
    by (simp only: gp)
  then show ?thesis by blast
qed

lemma augmented_sample_as_claimed:
  assumes "assemble env p = Inr sequence" and "sequence \<noteq> []"
      and "augmented_sample env self p c g = Inr (x, c1, g1)"
  shows "augmented_as_claimed env self x p"
proof -
  from augment_form [OF assms(2), of env self c g] obtain M1 M2 M3 M4 g4 where
    "augment env self sequence c g =
       and_then (vertical_flip_step self
                   (geometric_pipeline env self M1 M2 M3 M4 sequence) c g4)
         (\<lambda>(sequence, coin_flip, g). horizontal_flip_step self sequence coin_flip g)"
    by blast
  moreover from assms(1,3) have "augment env self sequence c g = Inr (x, c1, g1)"
    by (simp add: augmented_sample_def and_then_Inr)
  ultimately have
    "and_then (vertical_flip_step self
                   (geometric_pipeline env self M1 M2 M3 M4 sequence) c g4)
         (\<lambda>(sequence, coin_flip, g). horizontal_flip_step self sequence coin_flip g) =
       Inr (x, c1, g1)"
    by simp
  with assms(1) show ?thesis unfolding augmented_as_claimed_def by blast
qed

lemma batch_loop_ok:
  assumes "horizontal_flip self \<longrightarrow> vertical_flip self"
  shows "\<forall>p \<in> set paths. \<exists>sequence. assemble env p = Inr sequence \<and> sequence \<noteq> [] \<Longrightarrow>
         \<exists>X1 c1 g1. batch_loop env self paths X c g = Inr (X @ X1, c1, g1) \<and>
           list_all2 (\<lambda>x p. (\<exists>c g c1 g1. augmented_sample env self p c g = Inr (x, c1, g1)) \<and>
                             augmented_as_claimed env self x p)
             X1 paths"
proof (induction paths arbitrary: X c g)
  case Nil
  then show ?case by simp
next
  case (Cons p paths)
  from Cons.prems obtain sequence
    where asm: "assemble env p = Inr sequence" and ne: "sequence \<noteq> []" by auto
  from augmented_sample_ok [OF assms asm ne, of c g] obtain x c' g'
    where x: "augmented_sample env self p c g = Inr (x, c', g')" by blast
  note claimed = augmented_sample_as_claimed [OF asm ne x]
  from Cons.prems have "\<forall>p \<in> set paths. \<exists>sequence. assemble env p = Inr sequence \<and> sequence \<noteq> []"
    by simp
  from Cons.IH [OF this, of "X @ [x]" c' g'] obtain X1 c1 g1
    where r: "batch_loop env self paths (X @ [x]) c' g' = Inr ((X @ [x]) @ X1, c1, g1)"
      and a: "list_all2 (\<lambda>x p. (\<exists>c g c1 g1. augmented_sample env self p c g = Inr (x, c1, g1)) \<and>
                               augmented_as_claimed env self x p)
                X1 paths"
    by blast
  have "batch_loop env self (p # paths) X c g = Inr (X @ (x # X1), c1, g1)"
    by (simp add: x and_then_Inr r)
  moreover from x claimed a
  have "list_all2 (\<lambda>x p. (\<exists>c g c1 g1. augmented_sample env self p c g = Inr (x, c1, g1)) \<and>
                          augmented_as_claimed env self x p)
          (x # X1) (p # paths)"
    by auto
  ultimately show ?case by blast
qed

text \<open>One pull that finds \<open>coin_flip\<close> bound where it reads it.\<close>

lemma frame_generator_pull:
  assumes "distinct (map fst d)"
      and "0 \<le> batch_size self" and "batch_size self \<le> int (length d)"
      and "horizontal_flip self \<longrightarrow> vertical_flip self"
      and "\<forall>p \<in> set (map fst d). \<exists>sequence. assemble env p = Inr sequence \<and> sequence \<noteq> []"
      and "gen = Created \<or> gen = Suspended (map fst d, c)"
  shows "\<exists>X y paths c1 g1.
           frame_generator_next env self d gen g =
             Inr ((X, y), Suspended (map fst d, c1), g1) \<and>
           length X = nat (batch_size self) \<and> length y = nat (batch_size self) \<and>
           length paths = nat (batch_size self) \<and> distinct paths \<and>
           set paths \<subseteq> set (map fst d) \<and>
           y = map (\<lambda>p. the (map_of d p)) paths \<and>
           list_all2 (\<lambda>x p. (\<exists>c g c1 g1. augmented_sample env self p c g = Inr (x, c1, g1)) \<and>
                             augmented_as_claimed env self x p)
             X paths"
proof -
  define c0 where "c0 = (case gen of Created \<Rightarrow> None | Suspended l \<Rightarrow> snd l)"
  from assms(6) have locals:
    "(case gen of Created \<Rightarrow> (map fst d, None) | Suspended l \<Rightarrow> l) = (map fst d, c0)"
    by (auto simp: c0_def)
  define k where "k = nat (batch_size self)"
  from assms(2,3) have k: "k \<le> length (map fst d)" by (simp add: k_def)
  obtain paths g1 where sl: "sample_loop (map fst d) k g = (paths, g1)"
    by (cases "sample_loop (map fst d) k g")
  from sample_loop_distinct [OF assms(1) k, of g] sl
  have lp: "length paths = k" and dp: "distinct paths" and sp: "set paths \<subseteq> set (map fst d)"
    by simp_all
  from assms(2,3) sl have rs: "random_sample (map fst d) (batch_size self) g = Inr (paths, g1)"
    by (simp add: random_sample_def k_def)
  note y = getitem_dict_keys [OF sp]
  from sp assms(5)
  have "\<forall>p \<in> set paths. \<exists>sequence. assemble env p = Inr sequence \<and> sequence \<noteq> []"
    by blast
  from batch_loop_ok [OF assms(4) this, of "[]" c0 g1] obtain X c1 g2
    where bl: "batch_loop env self paths [] c0 g1 = Inr (X, c1, g2)"
      and al: "list_all2 (\<lambda>x p. (\<exists>c g c1 g1. augmented_sample env self p c g = Inr (x, c1, g1)) \<and>
                               augmented_as_claimed env self x p)
                 X paths"
    by auto
  from al have lx: "length X = length paths" by (rule list_all2_lengthD)
  have "frame_generator_next env self d gen g =
          Inr ((X, map (\<lambda>p. the (map_of d p)) paths), Suspended (map fst d, c1), g2)"
    by (simp add: frame_generator_next_def locals rs and_then_Inr y bl)
  with lx lp dp sp al show ?thesis by (auto simp: k_def)
qed

text \<open>
  The batch of a pull, where the horizontal flip is disabled or the vertical flip is
  enabled (the configurations in which the horizontal step finds \<open>coin_flip\<close> bound).
  For a mapping with distinct keys and at least \<open>batch_size\<close> of them, whose samples
  all assemble to non-empty sequences, every pull (the first, or a later one) yields
  \<open>X\<close> with \<open>batch_size\<close> sequences and \<open>y\<close> with \<open>batch_size\<close> labels: there are
  \<open>batch_size\<close> distinct keys \<open>paths\<close> such that \<open>y[i]\<close> is the label of
  \<open>paths[i]\<close> and \<open>X[i]\<close> is the augmented sample of \<open>paths[i]\<close>.
\<close>

theorem frame_generator_batch:
  assumes "distinct (map fst d)"
      and "0 \<le> batch_size self" and "batch_size self \<le> int (length d)"
      and "horizontal_flip self \<longrightarrow> vertical_flip self"
      and "\<forall>p \<in> set (map fst d). \<exists>sequence. assemble env p = Inr sequence \<and> sequence \<noteq> []"
      and "gen = Created \<or> gen = Suspended (map fst d, c)"
  shows "\<exists>X y paths c1 g1.
           frame_generator_next env self d gen g =
             Inr ((X, y), Suspended (map fst d, c1), g1) \<and>
           length X = nat (batch_size self) \<and> length y = nat (batch_size self) \<and>
           length paths = nat (batch_size self) \<and> distinct paths \<and>
           set paths \<subseteq> set (map fst d) \<and>
           y = map (\<lambda>p. the (map_of d p)) paths \<and>
           list_all2 (\<lambda>x p. \<exists>c g c1 g1. augmented_sample env self p c g = Inr (x, c1, g1))
             X paths"
proof -
  from frame_generator_pull [OF assms, of g] obtain X y paths c1 g1 where
    r: "frame_generator_next env self d gen g = Inr ((X, y), Suspended (map fst d, c1), g1)"
       "length X = nat (batch_size self)" "length y = nat (batch_size self)"
       "length paths = nat (batch_size self)" "distinct paths"
       "set paths \<subseteq> set (map fst d)" "y = map (\<lambda>p. the (map_of d p)) paths"
    and al: "list_all2 (\<lambda>x p. (\<exists>c g c1 g1. augmented_sample env self p c g = Inr (x, c1, g1)) \<and>
                               augmented_as_claimed env self x p) X paths"
    by blast
  from al have "list_all2 (\<lambda>x p. \<exists>c g c1 g1. augmented_sample env self p c g = Inr (x, c1, g1))
                  X paths"
    by (rule list_all2_mono) blast
  with r show ?thesis by blast
qed

theorem frame_generator_batch_witness:
  "distinct (map fst example_paths2labels) \<and>
   (0::int) \<le> batch_size (example_config\<lparr>horizontal_flip := True, vertical_flip := True\<rparr>) \<and>
   batch_size (example_config\<lparr>horizontal_flip := True, vertical_flip := True\<rparr>)
     \<le> int (length example_paths2labels) \<and>
   list_all (\<lambda>p. assemble example_env p = Inr (example_sequence_of p) \<and>
                 example_sequence_of p \<noteq> []) (map fst example_paths2labels) \<and>
   (\<exists>X y paths c1 g1.
      frame_generator_next example_env
          (example_config\<lparr>horizontal_flip := True, vertical_flip := True\<rparr>)
          example_paths2labels Created (constant_rng (1/2)) =
        Inr ((X, y), Suspended (map fst example_paths2labels, c1), g1) \<and>
      length X = 2 \<and> length y = 2 \<and> length paths = 2 \<and> distinct paths \<and>
      set paths \<subseteq> set (map fst example_paths2labels) \<and>
      y = map (\<lambda>p. the (map_of example_paths2labels p)) paths \<and>
      list_all2 (\<lambda>x p. \<exists>c g c1 g1.
          augmented_sample example_env
            (example_config\<lparr>horizontal_flip := True, vertical_flip := True\<rparr>) p c g =
          Inr (x, c1, g1)) X paths)"
proof -
  let ?cfg = "example_config\<lparr>horizontal_flip := True, vertical_flip := True\<rparr>"
  have h1: "distinct (map fst example_paths2labels)" by (simp add: example_paths2labels_def)
  have h2: "(0::int) \<le> batch_size ?cfg" by (simp add: example_config_def)
  have h3: "batch_size ?cfg \<le> int (length example_paths2labels)"
    by (simp add: example_config_def example_paths2labels_def)
  have h4: "horizontal_flip ?cfg \<longrightarrow> vertical_flip ?cfg" by simp
  have h5: "list_all (\<lambda>p. assemble example_env p = Inr (example_sequence_of p) \<and>
                 example_sequence_of p \<noteq> []) (map fst example_paths2labels)"
    by code_simp
  then have h5': "\<forall>p \<in> set (map fst example_paths2labels).
      \<exists>sequence. assemble example_env p = Inr sequence \<and> sequence \<noteq> []"
    unfolding list_all_iff by blast
  have h6: "(Created :: (string list \<times> bool option) generator) = Created \<or>
            Created = Suspended (map fst example_paths2labels, None)" by simp
  have bs: "nat (batch_size ?cfg) = 2" by (simp add: example_config_def)
  from frame_generator_batch [OF h1 h2 h3 h4 h5' h6, of "constant_rng (1/2)"]
  have "\<exists>X y paths c1 g1.
      frame_generator_next example_env ?cfg example_paths2labels Created (constant_rng (1/2)) =
        Inr ((X, y), Suspended (map fst example_paths2labels, c1), g1) \<and>
      length X = 2 \<and> length y = 2 \<and> length paths = 2 \<and> distinct paths \<and>
      set paths \<subseteq> set (map fst example_paths2labels) \<and>
      y = map (\<lambda>p. the (map_of example_paths2labels p)) paths \<and>
      list_all2 (\<lambda>x p. \<exists>c g c1 g1.
          augmented_sample example_env ?cfg p c g = Inr (x, c1, g1)) X paths"
    unfolding bs .
  with h1 h2 h3 h5 show ?thesis by (intro conjI)
qed

section \<open>The channel axis of the geometric steps\<close>

text \<open>
  C10. In every pull of \<open>frame_generator\<close> the zoom step, taken when \<open>zoom_range > 0\<close>,
  transforms with \<open>channel_axis = 1\<close>, the index of the column axis, while the rotation,
  shift and shear steps, when taken, transform with \<open>channel_axis = 2\<close>. First, for
  every configuration the loop body on a non-empty sequence is the two flip steps on the
  sequence so transformed (\<open>geometric_pipeline\<close>). Second, under the conditions in
  which a pull yields (distinct keys, at least \<open>batch_size\<close> of them, samples that
  assemble to non-empty sequences, and the horizontal flip disabled or the vertical one
  enabled), every pull yields \<open>batch_size\<close> sequences each of which is augmented in
  this way from a key of the mapping.
\<close>

theorem zoom_uses_channel_axis_1:
  assumes "distinct (map fst d)"
      and "0 \<le> batch_size self" and "batch_size self \<le> int (length d)"
      and "horizontal_flip self \<longrightarrow> vertical_flip self"
      and "\<forall>p \<in> set (map fst d). \<exists>sequence. assemble env p = Inr sequence \<and> sequence \<noteq> []"
      and "gen = Created \<or> gen = Suspended (map fst d, c)"
  shows "(\<forall>config sequence c0 g0. sequence \<noteq> [] \<longrightarrow>
           (\<exists>M1 M2 M3 M4 g4.
              augment env config sequence c0 g0 =
                and_then (vertical_flip_step config
                            (geometric_pipeline env config M1 M2 M3 M4 sequence) c0 g4)
                  (\<lambda>(sequence, coin_flip, g).
                     horizontal_flip_step config sequence coin_flip g))) \<and>
         (\<exists>X y paths c1 g1.
            frame_generator_next env self d gen g =
              Inr ((X, y), Suspended (map fst d, c1), g1) \<and>
            length X = nat (batch_size self) \<and>
            length paths = nat (batch_size self) \<and>
            set paths \<subseteq> set (map fst d) \<and>
            list_all2 (augmented_as_claimed env self) X paths)"
proof (intro conjI allI impI)
  fix config sequence c0 g0
  assume "sequence \<noteq> ([] :: frame list)"
  then show "\<exists>M1 M2 M3 M4 g4.
              augment env config sequence c0 g0 =
                and_then (vertical_flip_step config
                            (geometric_pipeline env config M1 M2 M3 M4 sequence) c0 g4)
                  (\<lambda>(sequence, coin_flip, g).
                     horizontal_flip_step config sequence coin_flip g)"
    by (rule augment_form)
next
  from frame_generator_pull [OF assms, of g] obtain X y paths c1 g1 where
    r: "frame_generator_next env self d gen g = Inr ((X, y), Suspended (map fst d, c1), g1)"
       "length X = nat (batch_size self)" "length paths = nat (batch_size self)"
       "set paths \<subseteq> set (map fst d)"
    and al: "list_all2 (\<lambda>x p. (\<exists>c g c1 g1. augmented_sample env self p c g = Inr (x, c1, g1)) \<and>
                               augmented_as_claimed env self x p) X paths"
    by blast
  from al have "list_all2 (augmented_as_claimed env self) X paths"
    by (rule list_all2_mono) blast
  with r show "\<exists>X y paths c1 g1.
            frame_generator_next env self d gen g =
              Inr ((X, y), Suspended (map fst d, c1), g1) \<and>
            length X = nat (batch_size self) \<and>
            length paths = nat (batch_size self) \<and>
            set paths \<subseteq> set (map fst d) \<and>
            list_all2 (augmented_as_claimed env self) X paths"
    by blast
qed

theorem zoom_uses_channel_axis_1_witness:
  "distinct (map fst example_paths2labels) \<and>
   (0::int) \<le> batch_size example_config \<and>
   batch_size example_config \<le> int (length example_paths2labels) \<and>
   list_all (\<lambda>p. assemble example_env p = Inr (example_sequence_of p) \<and>
                 example_sequence_of p \<noteq> []) (map fst example_paths2labels) \<and>
   zoom_range example_config > 0 \<and> rotation_range example_config > 0 \<and>
   width_shift_range example_config > 0 \<and> shear_range example_config > 0 \<and>
   apply_transform example_env (example_image 1) ((1, 0, 0), (0, 1, - 1), (0, 0, 1)) 1
       ''nearest'' 0 \<noteq>
     apply_transform example_env (example_image 1) ((1, 0, 0), (0, 1, - 1), (0, 0, 1)) 2
       ''nearest'' 0 \<and>
   (\<exists>M1 M2 M3 M4 g4.
      augment example_env example_config [example_image 1, example_image 2] None
          (constant_rng (1/2)) =
        and_then (vertical_flip_step example_config
                    (geometric_pipeline example_env example_config M1 M2 M3 M4
                       [example_image 1, example_image 2]) None g4)
          (\<lambda>(sequence, coin_flip, g).
             horizontal_flip_step example_config sequence coin_flip g)) \<and>
   (\<exists>X y paths c1 g1.
      frame_generator_next example_env example_config example_paths2labels Created
          (constant_rng (1/2)) =
        Inr ((X, y), Suspended (map fst example_paths2labels, c1), g1) \<and>
      length X = 2 \<and> length paths = 2 \<and>
      set paths \<subseteq> set (map fst example_paths2labels) \<and>
      list_all2 (augmented_as_claimed example_env example_config) X paths)"
proof -
  have h1: "distinct (map fst example_paths2labels)" by (simp add: example_paths2labels_def)
  have h2: "(0::int) \<le> batch_size example_config" by (simp add: example_config_def)
  have h3: "batch_size example_config \<le> int (length example_paths2labels)"
    by (simp add: example_config_def example_paths2labels_def)
  have h4: "horizontal_flip example_config \<longrightarrow> vertical_flip example_config"
    by (simp add: example_config_def)
  have h5: "list_all (\<lambda>p. assemble example_env p = Inr (example_sequence_of p) \<and>
                 example_sequence_of p \<noteq> []) (map fst example_paths2labels)"
    by code_simp
  then have h5': "\<forall>p \<in> set (map fst example_paths2labels).
      \<exists>sequence. assemble example_env p = Inr sequence \<and> sequence \<noteq> []"
    unfolding list_all_iff by blast
  have h6: "(Created :: (string list \<times> bool option) generator) = Created \<or>
            Created = Suspended (map fst example_paths2labels, None)" by simp
  have en: "zoom_range example_config > 0" "rotation_range example_config > 0"
    "width_shift_range example_config > 0" "shear_range example_config > 0"
    by (simp_all add: example_config_def)
  have sens: "apply_transform example_env (example_image 1)
       ((1, 0, 0), (0, 1, - 1), (0, 0, 1)) 1 ''nearest'' 0 \<noteq>
     apply_transform example_env (example_image 1)
       ((1, 0, 0), (0, 1, - 1), (0, 0, 1)) 2 ''nearest'' 0"
    by code_simp
  have bs: "nat (batch_size example_config) = 2" by (simp add: example_config_def)
  have ne: "[example_image 1, example_image 2] \<noteq> []" by simp
  note inst = zoom_uses_channel_axis_1 [OF h1 h2 h3 h4 h5' h6, of "constant_rng (1/2)"]
  from inst ne have a: "\<exists>M1 M2 M3 M4 g4.
      augment example_env example_config [example_image 1, example_image 2] None
          (constant_rng (1/2)) =
        and_then (vertical_flip_step example_config
                    (geometric_pipeline example_env example_config M1 M2 M3 M4
                       [example_image 1, example_image 2]) None g4)
          (\<lambda>(sequence, coin_flip, g).
             horizontal_flip_step example_config sequence coin_flip g)"
    by blast
  from inst have b: "\<exists>X y paths c1 g1.
      frame_generator_next example_env example_config example_paths2labels Created
          (constant_rng (1/2)) =
        Inr ((X, y), Suspended (map fst example_paths2labels, c1), g1) \<and>
      length X = 2 \<and> length paths = 2 \<and>
      set paths \<subseteq> set (map fst example_paths2labels) \<and>
      list_all2 (augmented_as_claimed example_env example_config) X paths"
    unfolding bs by (rule conjunct2)
  from h1 h2 h3 h5 en sens a b show ?thesis by (intro conjI)
qed

section \<open>The translation of \<open>random_sequence_shift\<close>\<close>

text \<open>
  For its own parameters \<open>random_sequence_shift\<close> does what its docstring says: with raw
  draws in [0, 1), the matrix is the pure translation by \<open>tx\<close> rows and \<open>ty\<close> columns,
  \<open>tx\<close> within \<open>height_shift_range\<close> times the height and \<open>ty\<close> within
  \<open>width_shift_range\<close> times the width of the first frame.
\<close>

theorem shift_translates_rows_by_height_range:
  assumes "seq \<noteq> []" and "row_axis \<le> 2" and "col_axis \<le> 2"
      and "0 \<le> hr" and "0 \<le> wr"
      and "0 \<le> np_draws g (np_pos g)" and "np_draws g (np_pos g) < 1"
      and "0 \<le> np_draws g (Suc (np_pos g))" and "np_draws g (Suc (np_pos g)) < 1"
  shows "\<exists>h w tx ty.
           first_shape seq row_axis col_axis = Inr (h, w) \<and>
           random_sequence_shift env seq hr wr row_axis col_axis ch fm cv g =
             Inr (map (\<lambda>x. apply_transform env x ((1, 0, tx), (0, 1, ty), (0, 0, 1)) ch fm cv)
                    seq, g\<lparr>np_pos := np_pos g + 2\<rparr>) \<and>
           - hr * real h \<le> tx \<and> tx \<le> hr * real h \<and>
           - wr * real w \<le> ty \<and> ty \<le> wr * real w"
proof -
  from first_shape_ok [OF assms(1-3)] obtain h w
    where hw: "first_shape seq row_axis col_axis = Inr (h, w)" by blast
  define u where "u = np_draws g (np_pos g)"
  define v where "v = np_draws g (Suc (np_pos g))"
  define a where "a = - hr + (hr - - hr) * u"
  define b where "b = - wr + (wr - - wr) * v"
  from assms(4,6,7) have a: "- hr \<le> a" "a \<le> hr"
    unfolding a_def u_def
    by (simp_all add: mult_nonneg_nonneg mult_left_le)
  from assms(5,8,9) have b: "- wr \<le> b" "b \<le> wr"
    unfolding b_def v_def
    by (simp_all add: mult_nonneg_nonneg mult_left_le)
  from a have tx: "- hr * real h \<le> a * real h" "a * real h \<le> hr * real h"
    by (intro mult_right_mono; simp)+
  from b have ty: "- wr * real w \<le> b * real w" "b * real w \<le> wr * real w"
    by (intro mult_right_mono; simp)+
  from shift_result [OF hw, of env hr wr ch fm cv g]
  have "random_sequence_shift env seq hr wr row_axis col_axis ch fm cv g =
          Inr (map (\<lambda>x. apply_transform env x
                 ((1, 0, a * real h), (0, 1, b * real w), (0, 0, 1)) ch fm cv) seq,
               g\<lparr>np_pos := np_pos g + 2\<rparr>)"
    by (simp only: a_def b_def u_def v_def)
  with hw tx ty show ?thesis by blast
qed

theorem shift_translates_rows_by_height_range_witness:
  "[example_image 1, example_image 2] \<noteq> [] \<and> (0::nat) \<le> 2 \<and> (1::nat) \<le> 2 \<and>
   (0::real) \<le> 1/10 \<and> (0::real) \<le> 1/5 \<and>
   0 \<le> np_draws (constant_rng (1/2)) (np_pos (constant_rng (1/2))) \<and>
   np_draws (constant_rng (1/2)) (np_pos (constant_rng (1/2))) < 1 \<and>
   0 \<le> np_draws (constant_rng (1/2)) (Suc (np_pos (constant_rng (1/2)))) \<and>
   np_draws (constant_rng (1/2)) (Suc (np_pos (constant_rng (1/2)))) < 1 \<and>
   (\<exists>h w tx ty.
      first_shape [example_image 1, example_image 2] 0 1 = Inr (h, w) \<and>
      random_sequence_shift example_env [example_image 1, example_image 2] (1/10) (1/5) 0 1 2
          ''nearest'' 0 (constant_rng (1/2)) =
        Inr (map (\<lambda>x. apply_transform example_env x ((1, 0, tx), (0, 1, ty), (0, 0, 1)) 2
                        ''nearest'' 0) [example_image 1, example_image 2],
             (constant_rng (1/2))\<lparr>np_pos := np_pos (constant_rng (1/2)) + 2\<rparr>) \<and>
      - (1/10) * real h \<le> tx \<and> tx \<le> (1/10) * real h \<and>
      - (1/5) * real w \<le> ty \<and> ty \<le> (1/5) * real w)"
proof -
  have h1: "[example_image 1, example_image 2] \<noteq> []" by simp
  have h2: "(0::nat) \<le> 2" and h3: "(1::nat) \<le> 2" by simp_all
  have h4: "(0::real) \<le> 1/10" and h5: "(0::real) \<le> 1/5" by simp_all
  have h6: "0 \<le> np_draws (constant_rng (1/2)) (np_pos (constant_rng (1/2)))"
    and h7: "np_draws (constant_rng (1/2)) (np_pos (constant_rng (1/2))) < 1"
    and h8: "0 \<le> np_draws (constant_rng (1/2)) (Suc (np_pos (constant_rng (1/2))))"
    and h9: "np_draws (constant_rng (1/2)) (Suc (np_pos (constant_rng (1/2)))) < 1"
    by (simp_all add: constant_rng_def)
  from h1 h2 h3 h4 h5 h6 h7 h8 h9
    shift_translates_rows_by_height_range [OF h1 h2 h3 h4 h5 h6 h7 h8 h9,
      of example_env 2 "''nearest''" 0]
  show ?thesis by (intro conjI)
qed

section \<open>Flipping a sequence\<close>

subsection \<open>Arrays and their elements\<close>

lemma length_concat_blocks:
  "(\<And>i. i < n \<Longrightarrow> length (f i) = m) \<Longrightarrow> length (concat (map f [0..<n])) = n * m"
  by (induction n) simp_all

lemma nth_concat_blocks:
  "(\<And>i. i < n \<Longrightarrow> length (f i) = m) \<Longrightarrow> i < n \<Longrightarrow> r < m \<Longrightarrow>
     concat (map f [0..<n]) ! (i * m + r) = f i ! r"
proof (induction n)
  case 0
  then show ?case by simp
next
  case (Suc n)
  have len: "length (concat (map f [0..<n])) = n * m"
    using Suc.prems(1) by (intro length_concat_blocks) simp
  show ?case
  proof (cases "i < n")
    case True
    then have "Suc i \<le> n" by simp
    then have "Suc i * m \<le> n * m" by (rule mult_le_mono1)
    with Suc.prems(3) have "i * m + r < n * m" by simp
    with Suc.IH [OF _ True Suc.prems(3)] Suc.prems(1) len show ?thesis
      by (simp add: nth_append)
  next
    case False
    with Suc.prems(2) have "i = n" by simp
    with len show ?thesis by (simp add: nth_append)
  qed
qed

lemma getitem_ndarray:
  assumes "i < d0" and "j < d1" and "k < d2"
  shows "getitem (ndarray (d0, d1, d2) g) (i, j, k) = g (i, j, k)"
proof -
  let ?G = "\<lambda>i j. map (\<lambda>k. g (i, j, k)) [0..<d2]"
  let ?F = "\<lambda>i. concat (map (?G i) [0..<d1])"
  have lenF: "length (?F i) = d1 * d2" for i
    by (intro length_concat_blocks) simp
  from assms(2) have "Suc j \<le> d1" by simp
  then have "Suc j * d2 \<le> d1 * d2" by (rule mult_le_mono1)
  with assms(3) have r: "j * d2 + k < d1 * d2" by simp
  have idx: "(i * d1 + j) * d2 + k = i * (d1 * d2) + (j * d2 + k)"
    by (simp add: algebra_simps)
  have "concat (map ?F [0..<d0]) ! ((i * d1 + j) * d2 + k) = ?F i ! (j * d2 + k)"
    unfolding idx using lenF assms(1) r by (intro nth_concat_blocks) simp_all
  also have "\<dots> = ?G i j ! k"
    using assms(2,3) by (intro nth_concat_blocks) simp_all
  also have "\<dots> = g (i, j, k)" using assms(3) by simp
  finally show ?thesis by simp
qed

lemma ndarray_cong:
  assumes "\<And>i j k. i < d0 \<Longrightarrow> j < d1 \<Longrightarrow> k < d2 \<Longrightarrow> g (i, j, k) = g' (i, j, k)"
  shows "ndarray (d0, d1, d2) g = ndarray (d0, d1, d2) g'"
proof -
  have row: "map (\<lambda>k. g (i, j, k)) [0..<d2] = map (\<lambda>k. g' (i, j, k)) [0..<d2]"
    if "i < d0" and "j < d1" for i j
    using assms that by (intro map_cong refl) simp
  have plane: "concat (map (\<lambda>j. map (\<lambda>k. g (i, j, k)) [0..<d2]) [0..<d1]) =
               concat (map (\<lambda>j. map (\<lambda>k. g' (i, j, k)) [0..<d2]) [0..<d1])"
    if "i < d0" for i
    by (rule arg_cong [where f = concat], rule map_cong [OF refl]) (simp add: row that)
  have "concat (map (\<lambda>i. concat (map (\<lambda>j. map (\<lambda>k. g (i, j, k)) [0..<d2]) [0..<d1])) [0..<d0]) =
        concat (map (\<lambda>i. concat (map (\<lambda>j. map (\<lambda>k. g' (i, j, k)) [0..<d2]) [0..<d1])) [0..<d0])"
    by (rule arg_cong [where f = concat], rule map_cong [OF refl]) (simp add: plane)
  then show ?thesis by simp
qed

lemma shape_ndarray: "shape (ndarray s g) = s"
  by (cases s) simp


lemma take_block:
  "a + m \<le> length xs \<Longrightarrow> map (\<lambda>r. xs ! (a + r)) [0..<m] = take m (drop a xs)"
  by (rule nth_equalityI) simp_all

lemma concat_blocks:
  "n * m \<le> length xs \<Longrightarrow>
     concat (map (\<lambda>i. take m (drop (i * m) xs)) [0..<n]) = take (n * m) xs"
proof (induction n)
  case 0
  then show ?case by simp
next
  case (Suc n)
  from Suc.prems have "n * m \<le> length xs" by simp
  from Suc.IH [OF this]
  have "concat (map (\<lambda>i. take m (drop (i * m) xs)) [0..<Suc n]) =
          take (n * m) xs @ take m (drop (n * m) xs)"
    by simp
  also have "\<dots> = take (n * m + m) xs" by (simp only: take_add)
  also have "n * m + m = Suc n * m" by simp
  finally show ?case .
qed

lemma ndarray_getitem:
  assumes "well_formed x"
  shows "ndarray (shape x) (getitem x) = x"
proof -
  obtain d0 d1 d2 where s: "shape x = (d0, d1, d2)" by (cases "shape x")
  with assms have len: "length (data x) = d0 * d1 * d2" by (simp add: well_formed_def)
  let ?xs = "data x"
  have row: "map (\<lambda>k. getitem x (i, j, k)) [0..<d2] =
             take d2 (drop (j * d2) (drop (i * (d1 * d2)) ?xs))"
    if "i < d0" and "j < d1" for i j
  proof -
    from that(2) have "Suc j \<le> d1" by simp
    then have "Suc j * d2 \<le> d1 * d2" by (rule mult_le_mono1)
    moreover from that(1) have "Suc i \<le> d0" by simp
    then have "Suc i * (d1 * d2) \<le> d0 * (d1 * d2)" by (rule mult_le_mono1)
    ultimately have "(i * d1 + j) * d2 + d2 \<le> length ?xs"
      by (simp add: len algebra_simps)
    from take_block [OF this] show ?thesis
      by (simp add: s algebra_simps)
  qed
  have plane: "concat (map (\<lambda>j. map (\<lambda>k. getitem x (i, j, k)) [0..<d2]) [0..<d1]) =
               take (d1 * d2) (drop (i * (d1 * d2)) ?xs)"
    if "i < d0" for i
  proof -
    from that have "Suc i \<le> d0" by simp
    then have "Suc i * (d1 * d2) \<le> d0 * (d1 * d2)" by (rule mult_le_mono1)
    then have "d1 * d2 \<le> length (drop (i * (d1 * d2)) ?xs)"
      by (simp add: len algebra_simps)
    note blocks = concat_blocks [OF this]
    have eq: "map (\<lambda>j. map (\<lambda>k. getitem x (i, j, k)) [0..<d2]) [0..<d1] =
              map (\<lambda>j. take d2 (drop (j * d2) (drop (i * (d1 * d2)) ?xs))) [0..<d1]"
      by (rule map_cong [OF refl]) (simp only: set_upt atLeastLessThan_iff row [OF that])
    show ?thesis unfolding eq by (rule blocks)
  qed
  have eq: "map (\<lambda>i. concat (map (\<lambda>j. map (\<lambda>k. getitem x (i, j, k)) [0..<d2]) [0..<d1])) [0..<d0] =
        map (\<lambda>i. take (d1 * d2) (drop (i * (d1 * d2)) ?xs)) [0..<d0]"
    by (rule map_cong [OF refl]) (simp only: set_upt atLeastLessThan_iff plane)
  have all: "concat (map (\<lambda>i. take (d1 * d2) (drop (i * (d1 * d2)) ?xs)) [0..<d0]) = ?xs"
    using concat_blocks [of d0 "d1 * d2" ?xs] by (simp add: len algebra_simps)
  have "data (ndarray (shape x) (getitem x)) =
          concat (map (\<lambda>i. concat (map (\<lambda>j. map (\<lambda>k. getitem x (i, j, k)) [0..<d2]) [0..<d1]))
                    [0..<d0])"
    unfolding s by simp
  then have "data (ndarray (shape x) (getitem x)) = data x"
    unfolding eq all .
  moreover have "shape (ndarray (shape x) (getitem x)) = shape x" by (rule shape_ndarray)
  ultimately show ?thesis by simp
qed

subsection \<open>The flip reverses one axis\<close>

lemma flip_frame_composition:
  assumes "axis \<le> 2"
  shows "ndarray (exchange 0 axis (shape (reverse_first_axis
            (ndarray (exchange axis 0 (shape x)) (\<lambda>idx. getitem x (exchange axis 0 idx))))))
          (\<lambda>idx. getitem (reverse_first_axis
            (ndarray (exchange axis 0 (shape x)) (\<lambda>idx. getitem x (exchange axis 0 idx))))
            (exchange 0 axis idx)) =
         flip_frame axis x"
proof -
  obtain d0 d1 d2 where s: "shape x = (d0, d1, d2)" by (cases "shape x")
  from assms consider "axis = 0" | "axis = 1" | "axis = 2" by linarith
  then show ?thesis
  proof cases
    case 1
    show ?thesis
      unfolding flip_frame_def reverse_first_axis_def s 1
      by (simp add: Let_def shape_ndarray del: ndarray.simps getitem.simps)
         (rule ndarray_cong, simp add: getitem_ndarray del: ndarray.simps getitem.simps)
  next
    case 2
    show ?thesis
      unfolding flip_frame_def reverse_first_axis_def s 2
      by (simp add: Let_def shape_ndarray del: ndarray.simps getitem.simps)
         (rule ndarray_cong, simp add: getitem_ndarray del: ndarray.simps getitem.simps)
  next
    case 3
    show ?thesis
      unfolding flip_frame_def reverse_first_axis_def s 3
      by (simp add: Let_def shape_ndarray del: ndarray.simps getitem.simps)
         (rule ndarray_cong, simp add: getitem_ndarray del: ndarray.simps getitem.simps)
  qed
qed

lemma sequence_flip_axis_eq:
  assumes "axis \<le> 2"
  shows "sequence_flip_axis seq axis = Inr (map (flip_frame axis) seq)"
proof -
  from assms have a: "mapM (\<lambda>x. swapaxes x axis 0) xs =
      Inr (map (\<lambda>x. ndarray (exchange axis 0 (shape x)) (\<lambda>idx. getitem x (exchange axis 0 idx))) xs)"
    for xs
    by (intro mapM_total) (simp add: swapaxes_def)
  from assms have b: "mapM (\<lambda>x. swapaxes x 0 axis) ys =
      Inr (map (\<lambda>x. ndarray (exchange 0 axis (shape x)) (\<lambda>idx. getitem x (exchange 0 axis idx))) ys)"
    for ys
    by (intro mapM_total) (simp add: swapaxes_def)
  show ?thesis
    unfolding sequence_flip_axis_def a b and_then_Inr Let_def
    by (simp only: map_map o_def flip_frame_composition [OF assms])
qed

lemma well_formed_ndarray: "well_formed (ndarray s g)"
proof -
  obtain d0 d1 d2 where s: "s = (d0, d1, d2)" by (cases s)
  have "length (concat (map (\<lambda>i. concat (map (\<lambda>j. map (\<lambda>k. g (i, j, k)) [0..<d2]) [0..<d1]))
          [0..<d0])) = d0 * (d1 * d2)"
    by (intro length_concat_blocks) simp_all
  then show ?thesis by (simp add: well_formed_def s)
qed

lemma reverse_at_in_range:
  assumes "i < d0" and "j < d1" and "k < d2"
  shows "\<exists>i' j' k'. reverse_at axis (d0, d1, d2) (i, j, k) = (i', j', k') \<and>
           i' < d0 \<and> j' < d1 \<and> k' < d2 \<and>
           reverse_at axis (d0, d1, d2) (i', j', k') = (i, j, k)"
  using assms by auto

lemma flip_frame_twice:
  assumes "well_formed x"
  shows "flip_frame axis (flip_frame axis x) = x"
proof -
  obtain d0 d1 d2 where s: "shape x = (d0, d1, d2)" by (cases "shape x")
  have "flip_frame axis (flip_frame axis x) = ndarray (d0, d1, d2) (getitem x)"
    unfolding flip_frame_def shape_ndarray s
  proof (rule ndarray_cong)
    fix i j k assume r: "i < d0" "j < d1" "k < d2"
    from reverse_at_in_range [OF r, of axis] obtain i' j' k'
      where 1: "reverse_at axis (d0, d1, d2) (i, j, k) = (i', j', k')"
        and 2: "i' < d0" "j' < d1" "k' < d2"
        and 3: "reverse_at axis (d0, d1, d2) (i', j', k') = (i, j, k)" by blast
    show "getitem (ndarray (d0, d1, d2) (\<lambda>idx. getitem x (reverse_at axis (d0, d1, d2) idx)))
            (reverse_at axis (d0, d1, d2) (i, j, k)) = getitem x (i, j, k)"
      unfolding 1 getitem_ndarray [OF 2] 3 ..
  qed
  with ndarray_getitem [OF assms] show ?thesis by (simp add: s)
qed

text \<open>
  For an axis of a 3D frame, \<open>sequence_flip_axis\<close> returns every frame mirrored along
  that axis, and flipping a sequence of well-formed frames twice along the same axis
  gives the sequence back.
\<close>

theorem flip_twice_restores:
  assumes "axis \<le> 2" and "\<forall>x \<in> set seq. well_formed x"
  shows "sequence_flip_axis seq axis = Inr (map (flip_frame axis) seq) \<and>
         and_then (sequence_flip_axis seq axis) (\<lambda>flipped. sequence_flip_axis flipped axis) =
           Inr seq"
proof -
  have "map (flip_frame axis) (map (flip_frame axis) seq) = seq"
    using assms(2) by (simp add: flip_frame_twice map_idI)
  then show ?thesis
    by (simp add: sequence_flip_axis_eq [OF assms(1)] and_then_Inr)
qed

theorem flip_twice_restores_witness:
  "(1::nat) \<le> 2 \<and>
   list_all well_formed [\<lparr> shape = (1, 2, 2), data = [1, 2, 3, 4] \<rparr>] \<and>
   sequence_flip_axis [\<lparr> shape = (1, 2, 2), data = [1, 2, 3, 4] \<rparr>] 1 =
     Inr (map (flip_frame 1) [\<lparr> shape = (1, 2, 2), data = [1, 2, 3, 4] \<rparr>]) \<and>
   and_then (sequence_flip_axis [\<lparr> shape = (1, 2, 2), data = [1, 2, 3, 4] \<rparr>] 1)
       (\<lambda>flipped. sequence_flip_axis flipped 1) =
     Inr [\<lparr> shape = (1, 2, 2), data = [1, 2, 3, 4] \<rparr>]"
proof -
  have h1: "(1::nat) \<le> 2" by simp
  have h2: "list_all well_formed [\<lparr> shape = (1, 2, 2), data = [1, 2, 3, 4] \<rparr>]"
    by (simp add: well_formed_def)
  then have h2': "\<forall>x \<in> set [\<lparr> shape = (1, 2, 2), data = [1, 2, 3, 4] \<rparr>]. well_formed x"
    by (simp only: list_all_iff)
  note r = flip_twice_restores [OF h1 h2']
  from r have a: "sequence_flip_axis [\<lparr> shape = (1, 2, 2), data = [1, 2, 3, 4] \<rparr>] 1 =
     Inr (map (flip_frame 1) [\<lparr> shape = (1, 2, 2), data = [1, 2, 3, 4] \<rparr>])"
    by (rule conjunct1)
  from r have b: "and_then (sequence_flip_axis [\<lparr> shape = (1, 2, 2), data = [1, 2, 3, 4] \<rparr>] 1)
       (\<lambda>flipped. sequence_flip_axis flipped 1) =
     Inr [\<lparr> shape = (1, 2, 2), data = [1, 2, 3, 4] \<rparr>]"
    by (rule conjunct2)
  from h1 h2 a b show ?thesis by (intro conjI)
qed

text \<open>
  On an (H, W, C) frame, axis 1 (the vertical-flip step of \<open>frame_generator\<close>) is the
  column axis and axis 2 (its horizontal-flip step) is the channel axis: here a frame of
  one row, two columns and two channels.
\<close>

lemma flip_axes_of_frame_generator:
  "sequence_flip_axis [\<lparr> shape = (1, 2, 2), data = [1, 2, 3, 4] \<rparr>] 1 =
     Inr [\<lparr> shape = (1, 2, 2), data = [3, 4, 1, 2] \<rparr>] \<and>
   sequence_flip_axis [\<lparr> shape = (1, 2, 2), data = [1, 2, 3, 4] \<rparr>] 2 =
     Inr [\<lparr> shape = (1, 2, 2), data = [2, 1, 4, 3] \<rparr>]"
  by code_simp

end
